theory Spec2Isabelle
  imports Complex_Main "HOL-Library.Multiset" "HOL-Library.AList" "HOL-Library.Word"
begin

unbundle bit_operations_syntax

section \<open>Python integers and NumPy scalars\<close>

text \<open>
  The exceptions that the functions below raise, as values. \<open>NotModelled\<close> is not an
  exception of Python: it marks the one case of the arithmetic below whose result has
  no counterpart here.
\<close>

datatype py_error = OverflowError | IndexError | ValueError | CvError | BackendError | NotModelled

text \<open>A result is an exception (\<open>Inl\<close>) or a value (\<open>Inr\<close>); \<open>bnd\<close> passes the value
  on and lets the exception through.\<close>

definition bnd :: "py_error + 'a \<Rightarrow> ('a \<Rightarrow> py_error + 'b) \<Rightarrow> py_error + 'b" where
  "bnd m f = (case m of Inl e \<Rightarrow> Inl e | Inr v \<Rightarrow> f v)"

text \<open>
  The dataclass \<open>ROI\<close> declares its coordinates as \<open>int\<close>, but Python does not enforce
  the declaration: \<open>detect_circles\<close> stores what its arithmetic on \<open>np.uint16\<close> values
  returns. A coordinate is therefore a Python int (\<open>Py\<close>, unbounded), a \<open>uint16\<close>
  scalar (\<open>U16\<close>) or an \<open>int64\<close> scalar (\<open>I64\<close>); \<open>val\<close> is the integer it stands for.
\<close>

type_synonym u16 = "16 word"

datatype scalar = Py int | U16 u16 | I64 "64 word"

fun val :: "scalar \<Rightarrow> int" where
  "val (Py n) = n"
| "val (U16 w) = uint w"
| "val (I64 w) = sint w"

text \<open>Python's \<open>max(a, b)\<close> and \<open>min(a, b)\<close> return the first argument unless the
  second is greater (smaller); the object returned keeps its type. Comparisons between
  Python ints and NumPy integers go by value.\<close>

definition py_max :: "scalar \<Rightarrow> scalar \<Rightarrow> scalar" where
  "py_max a b = (if val b > val a then b else a)"

definition py_min :: "scalar \<Rightarrow> scalar \<Rightarrow> scalar" where
  "py_min a b = (if val b < val a then b else a)"

text \<open>
  What an operator gives on two scalars depends on the NumPy release. Two Python
  ints give a Python int, exactly. Two NumPy scalars give the wider of the two
  types, and the result wraps around in it. For a NumPy scalar and a Python int,
  NumPy before release 2 (\<open>Legacy\<close>) takes the Python int as a 64-bit integer (on
  Linux and macOS), so the result is \<open>int64\<close>; from release 2 on (\<open>NEP50\<close>) the Python
  int is converted to the type of the NumPy scalar, with an \<open>OverflowError\<close> when it
  does not fit. The start script asks for \<open>numpy>=1.21.0\<close>, which admits both. Under
  \<open>Legacy\<close> a Python int beyond 64 bits leads to an unsigned, floating or object
  result, which is \<open>NotModelled\<close>.
\<close>

datatype numpy_rules = Legacy | NEP50

datatype kind = PyKind | U16Kind | I64Kind

definition in_u16 :: "int \<Rightarrow> bool" where
  "in_u16 n \<longleftrightarrow> 0 \<le> n \<and> n \<le> 65535"

definition in_i64 :: "int \<Rightarrow> bool" where
  "in_i64 n \<longleftrightarrow> - (2 ^ 63) \<le> n \<and> n < 2 ^ 63"

text \<open>The type of the result for a NumPy scalar of kind \<open>k\<close> and the Python int
  \<open>n\<close>.\<close>

definition weak :: "numpy_rules \<Rightarrow> kind \<Rightarrow> int \<Rightarrow> py_error + kind" where
  "weak rules k n =
     (case rules of
        Legacy \<Rightarrow> if in_i64 n then Inr I64Kind else Inl NotModelled
      | NEP50 \<Rightarrow>
          if k = U16Kind then (if in_u16 n then Inr U16Kind else Inl OverflowError)
          else (if in_i64 n then Inr I64Kind else Inl OverflowError))"

fun result_kind :: "numpy_rules \<Rightarrow> scalar \<Rightarrow> scalar \<Rightarrow> py_error + kind" where
  "result_kind rules (Py m) (Py n) = Inr PyKind"
| "result_kind rules (U16 a) (U16 b) = Inr U16Kind"
| "result_kind rules (I64 a) (I64 b) = Inr I64Kind"
| "result_kind rules (U16 a) (I64 b) = Inr I64Kind"
| "result_kind rules (I64 a) (U16 b) = Inr I64Kind"
| "result_kind rules (U16 a) (Py n) = weak rules U16Kind n"
| "result_kind rules (Py n) (U16 a) = weak rules U16Kind n"
| "result_kind rules (I64 a) (Py n) = weak rules I64Kind n"
| "result_kind rules (Py n) (I64 a) = weak rules I64Kind n"

fun wrap :: "kind \<Rightarrow> int \<Rightarrow> scalar" where
  "wrap PyKind n = Py n"
| "wrap U16Kind n = U16 (word_of_int n)"
| "wrap I64Kind n = I64 (word_of_int n)"

text \<open>\<open>a + b\<close>, \<open>a - b\<close> and \<open>a * b\<close>: the operator \<open>f\<close> on the values, then the
  result in its type.\<close>

definition arith :: "numpy_rules \<Rightarrow> (int \<Rightarrow> int \<Rightarrow> int) \<Rightarrow> scalar \<Rightarrow> scalar \<Rightarrow> py_error + scalar" where
  "arith rules f a b = bnd (result_kind rules a b) (\<lambda>k. Inr (wrap k (f (val a) (val b))))"

text \<open>\<open>a / b\<close> for \<open>b\<close> other than 0: both operands are brought to the common type as
  above, and the result is the float nearest to the quotient of the values, which
  the argument \<open>rnd\<close> yields (the identity gives exact arithmetic).\<close>

definition true_divide :: "numpy_rules \<Rightarrow> (real \<Rightarrow> real) \<Rightarrow> scalar \<Rightarrow> scalar \<Rightarrow> py_error + real" where
  "true_divide rules rnd a b =
     bnd (result_kind rules a b) (\<lambda>k. Inr (rnd (real_of_int (val a) / real_of_int (val b))))"


section \<open>The ROI model (src/models/roi.py)\<close>

text \<open>
  The dataclass \<open>ROI\<close>. The type of the four coordinates is a parameter: an
  \<open>int ROI\<close> is a region whose coordinates are Python ints, as the dataclass declares
  them (Python's \<open>int\<close> is unbounded), and a \<open>scalar ROI\<close> is a region whose
  coordinates may be NumPy scalars as well. The fields \<open>x\<close>, \<open>y\<close>, \<open>width\<close>, \<open>height\<close> and \<open>name\<close> carry the prefix \<open>roi_\<close>
  here, since a record field is a constant and these names are wanted for variables.
  The two timestamps \<open>created_at\<close> and \<open>modified_at\<close> (wall-clock floats) are left out:
  no function below reads them.
\<close>

record 'n ROI =
  roi_x :: 'n
  roi_y :: 'n
  roi_width :: 'n
  roi_height :: 'n
  roi_name :: string
  node_name :: string
  image_name :: string
  roi_type :: string
  action :: string
  click_mode :: string
  click_count :: int
  click_interval :: int
  swipe_direction :: string
  swipe_speed :: int
  image_action :: string
  roi_id :: string
  color :: string
  tags :: "string list"
  image_path :: string

text \<open>The constructor call \<open>ROI(x=.., y=.., width=.., height=..)\<close>: every other field
  takes its default; the identifier, a fresh uuid prefix in the source, is an argument.\<close>

definition new_ROI :: "string \<Rightarrow> 'n \<Rightarrow> 'n \<Rightarrow> 'n \<Rightarrow> 'n \<Rightarrow> 'n ROI" where
  "new_ROI ident x y w h =
     \<lparr> roi_x = x, roi_y = y, roi_width = w, roi_height = h, roi_name = '''',
       node_name = '''', image_name = '''', roi_type = ''image'', action = '''',
       click_mode = ''single'', click_count = 1, click_interval = 500,
       swipe_direction = ''top_to_bottom'', swipe_speed = 400, image_action = ''detect'',
       roi_id = ident, color = ''#00FF00'', tags = [], image_path = '''' \<rparr>"

text \<open>The properties \<open>center\<close>, \<open>area\<close>, \<open>right\<close> and \<open>bottom\<close> of a region whose
  coordinates are Python ints.\<close>

definition center :: "int ROI \<Rightarrow> int \<times> int" where
  "center r = (roi_x r + roi_width r div 2, roi_y r + roi_height r div 2)"

definition area :: "int ROI \<Rightarrow> int" where
  "area r = roi_width r * roi_height r"

definition right :: "int ROI \<Rightarrow> int" where
  "right r = roi_x r + roi_width r"

definition bottom :: "int ROI \<Rightarrow> int" where
  "bottom r = roi_y r + roi_height r"

text \<open>The properties \<open>area\<close>, \<open>right\<close> and \<open>bottom\<close> of a region whose coordinates
  may be NumPy scalars: the operators are those of NumPy then, and may raise.\<close>

definition np_area :: "numpy_rules \<Rightarrow> scalar ROI \<Rightarrow> py_error + scalar" where
  "np_area rules r = arith rules (*) (roi_width r) (roi_height r)"

definition np_right :: "numpy_rules \<Rightarrow> scalar ROI \<Rightarrow> py_error + scalar" where
  "np_right rules r = arith rules (+) (roi_x r) (roi_width r)"

definition np_bottom :: "numpy_rules \<Rightarrow> scalar ROI \<Rightarrow> py_error + scalar" where
  "np_bottom rules r = arith rules (+) (roi_y r) (roi_height r)"

text \<open>A region all of whose coordinates are Python ints, and the region that holds
  the integer values of the coordinates of a region.\<close>

fun is_py :: "scalar \<Rightarrow> bool" where
  "is_py (Py n) = True"
| "is_py (U16 w) = False"
| "is_py (I64 w) = False"

definition python_ints :: "scalar ROI \<Rightarrow> bool" where
  "python_ints r \<longleftrightarrow>
     is_py (roi_x r) \<and> is_py (roi_y r) \<and> is_py (roi_width r) \<and> is_py (roi_height r)"

definition as_ints :: "scalar ROI \<Rightarrow> int ROI" where
  "as_ints r =
     \<lparr> roi_x = val (roi_x r), roi_y = val (roi_y r), roi_width = val (roi_width r),
       roi_height = val (roi_height r), roi_name = roi_name r,
       node_name = node_name r, image_name = image_name r, roi_type = roi_type r,
       action = action r, click_mode = click_mode r, click_count = click_count r,
       click_interval = click_interval r, swipe_direction = swipe_direction r,
       swipe_speed = swipe_speed r, image_action = image_action r,
       roi_id = roi_id r, color = color r, tags = tags r, image_path = image_path r \<rparr>"

text \<open>\<open>translate\<close> (the stamp on \<open>modified_at\<close> aside).\<close>

definition translate :: "int ROI \<Rightarrow> int \<Rightarrow> int \<Rightarrow> int ROI" where
  "translate r dx dy = r\<lparr>roi_x := roi_x r + dx, roi_y := roi_y r + dy\<rparr>"

text \<open>\<open>copy\<close>: a new region with the box, colour and tags of the old one and the
  name extended by \<open>_copy\<close>; the other fields take their defaults and the identifier
  is fresh.\<close>

definition copy :: "string \<Rightarrow> int ROI \<Rightarrow> int ROI" where
  "copy ident r =
     (new_ROI ident (roi_x r) (roi_y r) (roi_width r) (roi_height r))
       \<lparr>roi_name := roi_name r @ ''_copy'', color := color r, tags := tags r\<rparr>"

text \<open>The values a serialised region holds: strings, ints and the pair of ints of
  \<open>center\<close>. The dict is an association list in insertion order; \<open>result[k] = v\<close> is
  \<open>AList.update\<close>, which replaces the value of a key that is present and appends the
  pair otherwise.\<close>

datatype pyval = PyStr string | PyInt int | PyTuple int int

definition to_dict :: "int ROI \<Rightarrow> (string \<times> pyval) list" where
  "to_dict r =
     (let result =
        [(''id'', PyStr (roi_id r)),
         (''name'', PyStr (roi_name r)),
         (''node_name'', PyStr (node_name r)),
         (''roi_type'', PyStr (roi_type r)),
         (''x'', PyInt (roi_x r)),
         (''y'', PyInt (roi_y r)),
         (''width'', PyInt (roi_width r)),
         (''height'', PyInt (roi_height r)),
         (''center'', PyTuple (fst (center r)) (snd (center r)))]
      in if roi_type r = ''image''
         then AList.update ''image_action'' (PyStr (image_action r))
                (AList.update ''image_name'' (PyStr (image_name r)) result)
         else (let result = AList.update ''action'' (PyStr (action r)) result
               in if action r = ''click''
                  then AList.update ''click_interval'' (PyInt (click_interval r))
                         (AList.update ''click_count'' (PyInt (click_count r))
                            (AList.update ''click_mode'' (PyStr (click_mode r)) result))
                  else if action r = ''swipe''
                  then AList.update ''swipe_speed'' (PyInt (swipe_speed r))
                         (AList.update ''swipe_direction'' (PyStr (swipe_direction r)) result)
                  else result))"

text \<open>The key set the specification gives for the export record of a region.\<close>

definition schema_keys :: "int ROI \<Rightarrow> string list" where
  "schema_keys r =
     [''id'', ''name'', ''node_name'', ''roi_type'', ''x'', ''y'', ''width'', ''height'',
      ''center''] @
     (if roi_type r = ''image'' then [''image_name'', ''image_action'']
      else if roi_type r = ''region''
      then ''action'' #
           (if action r = ''click''
            then [''click_mode'', ''click_count'', ''click_interval_ms'']
            else if action r = ''swipe''
            then [''swipe_direction'', ''swipe_speed_px_s'']
            else [])
      else [])"

subsection \<open>ROICollection\<close>

text \<open>The field \<open>rois\<close> is \<open>c_rois\<close> here, \<open>_name_counter\<close> is \<open>name_counter\<close>.\<close>

record ROICollection =
  c_rois :: "int ROI list"
  selected_index :: int
  name_counter :: nat

definition init_collection :: ROICollection where
  "init_collection = \<lparr>c_rois = [], selected_index = -1, name_counter = 0\<rparr>"

text \<open>Decimal digits of a number, and the format \<open>{n:03d}\<close>: at least three digits,
  padded with zeros on the left.\<close>

fun dec :: "nat \<Rightarrow> string" where
  "dec n = (if n < 10 then [''0123456789'' ! n]
            else dec (n div 10) @ [''0123456789'' ! (n mod 10)])"

declare dec.simps [simp del]

definition fmt_03d :: "nat \<Rightarrow> string" where
  "fmt_03d n = replicate (3 - length (dec n)) CHR ''0'' @ dec n"

text \<open>\<open>add\<close> returns the new collection and the index of the added region.\<close>

definition add :: "ROICollection \<Rightarrow> int ROI \<Rightarrow> ROICollection \<times> int" where
  "add c roi =
     (let c1 = (if roi_name roi = '''' then c\<lparr>name_counter := name_counter c + 1\<rparr> else c);
          roi1 = (if roi_name roi = ''''
                  then roi\<lparr>roi_name := ''ROI_'' @ fmt_03d (name_counter c1)\<rparr> else roi);
          c2 = c1\<lparr>c_rois := c_rois c1 @ [roi1]\<rparr>
      in (c2, int (length (c_rois c2)) - 1))"

text \<open>\<open>remove\<close>: \<open>del self.rois[index]\<close> on an index checked to be in range.\<close>

definition remove :: "ROICollection \<Rightarrow> int \<Rightarrow> ROICollection \<times> bool" where
  "remove c index =
     (if 0 \<le> index \<and> index < int (length (c_rois c))
      then (let c1 = c\<lparr>c_rois := take (nat index) (c_rois c) @ drop (Suc (nat index)) (c_rois c)\<rparr>;
                c2 = (if selected_index c1 = index then c1\<lparr>selected_index := -1\<rparr>
                      else if selected_index c1 > index
                      then c1\<lparr>selected_index := selected_index c1 - 1\<rparr>
                      else c1)
            in (c2, True))
      else (c, False))"

definition remove_selected :: "ROICollection \<Rightarrow> ROICollection \<times> bool" where
  "remove_selected c =
     (if selected_index c \<ge> 0 then remove c (selected_index c) else (c, False))"

definition get :: "ROICollection \<Rightarrow> int \<Rightarrow> int ROI option" where
  "get c index =
     (if 0 \<le> index \<and> index < int (length (c_rois c)) then Some (c_rois c ! nat index)
      else None)"

definition get_selected :: "ROICollection \<Rightarrow> int ROI option" where
  "get_selected c = get c (selected_index c)"

definition select :: "ROICollection \<Rightarrow> int \<Rightarrow> ROICollection" where
  "select c index =
     (if 0 \<le> index \<and> index < int (length (c_rois c)) then c\<lparr>selected_index := index\<rparr>
      else c\<lparr>selected_index := -1\<rparr>)"

text \<open>The loop of \<open>select_by_point\<close> over \<open>enumerate(self.rois)\<close>; \<open>i\<close> is the index
  of the head of the remaining list. \<open>roi.contains(point)\<close> is \<open>QRect.contains\<close> of Qt,
  the argument \<open>contains\<close>.\<close>

fun first_containing :: "(int ROI \<Rightarrow> 'p \<Rightarrow> bool) \<Rightarrow> 'p \<Rightarrow> int \<Rightarrow> int ROI list \<Rightarrow> int" where
  "first_containing contains point i [] = -1"
| "first_containing contains point i (roi # rest) =
     (if contains roi point then i else first_containing contains point (i + 1) rest)"

definition select_by_point ::
  "(int ROI \<Rightarrow> 'p \<Rightarrow> bool) \<Rightarrow> ROICollection \<Rightarrow> 'p \<Rightarrow> ROICollection \<times> int" where
  "select_by_point contains c point =
     (let i = first_containing contains point 0 (c_rois c)
      in (c\<lparr>selected_index := i\<rparr>, i))"

text \<open>\<open>copy_selected\<close>; a region object is always true in \<open>if roi:\<close>, so the test
  is whether one is selected.\<close>

definition copy_selected :: "string \<Rightarrow> ROICollection \<Rightarrow> ROICollection \<times> int ROI option" where
  "copy_selected ident c =
     (case get_selected c of
        None \<Rightarrow> (c, None)
      | Some roi \<Rightarrow>
          (let new_roi = translate (copy ident roi) 20 20;
               c1 = fst (add c new_roi)
           in (c1\<lparr>selected_index := int (length (c_rois c1)) - 1\<rparr>, Some new_roi)))"

definition clear :: "ROICollection \<Rightarrow> ROICollection" where
  "clear c = c\<lparr>c_rois := [], selected_index := -1, name_counter := 0\<rparr>"

text \<open>The invariant on the selection: no region, or the index of one.\<close>

definition valid_selection :: "ROICollection \<Rightarrow> bool" where
  "valid_selection c \<longleftrightarrow>
     selected_index c = -1 \<or>
     (0 \<le> selected_index c \<and> selected_index c < int (length (c_rois c)))"

section \<open>Pixel buffers and library calls\<close>

text \<open>
  A \<open>QPixmap\<close> as far as the detectors look at it: whether it is null, its width and
  height, and its pixels as rows of RGB bytes (\<open>toImage()\<close> in the format RGB888).
\<close>

type_synonym pixel = "8 word \<times> 8 word \<times> 8 word"
type_synonym image = "pixel list list"

record QPixmap =
  isNull :: bool
  pm_width :: int
  pm_height :: int
  pm_image :: image

definition rgb_to_bgr :: "image \<Rightarrow> image" where
  "rgb_to_bgr arr = map (map (\<lambda>(r, g, b). (b, g, r))) arr"

text \<open>
  \<open>_qpixmap_to_cv2\<close> (the classes \<open>AutoDetector\<close>, \<open>SmartSegmenter\<close> and
  \<open>SuperpixelSegmenter\<close> each have a copy of it). It returns \<open>None\<close> for a null pixmap.
  Otherwise it reads the buffer of the image, \<open>byteCount()\<close> bytes, and reshapes it to
  \<open>(height, width, 3)\<close>. Qt pads every scan line of an RGB888 image to a multiple of
  four bytes, so the buffer has \<open>bytes_per_line width * height\<close> bytes, and \<open>reshape\<close>
  raises \<open>ValueError\<close> unless that number is \<open>height * width * 3\<close>, which is when the
  width is a multiple of 4. Then the result is the array of the pixels in the channel
  order BGR.
\<close>

definition bytes_per_line :: "int \<Rightarrow> int" where
  "bytes_per_line width = ((width * 24 + 31) div 32) * 4"

definition qpixmap_to_cv2 :: "QPixmap \<Rightarrow> py_error + image option" where
  "qpixmap_to_cv2 pixmap =
     (if isNull pixmap then Inr None
      else (let width = pm_width pixmap; height = pm_height pixmap
            in if bytes_per_line width * height = height * width * 3
               then Inr (Some (rgb_to_bgr (pm_image pixmap)))
               else Inl ValueError))"

text \<open>\<open>img.shape[:2]\<close>: the number of rows and the length of a row.\<close>

definition shape :: "'a list list \<Rightarrow> int \<times> int" where
  "shape img = (int (length img), (case img of [] \<Rightarrow> 0 | row # _ \<Rightarrow> int (length row)))"

text \<open>Python's \<open>xs[i]\<close> for an index that is not negative.\<close>

definition item :: "'a list \<Rightarrow> int \<Rightarrow> py_error + 'a" where
  "item xs i = (if 0 \<le> i \<and> i < int (length xs) then Inr (xs ! nat i) else Inl IndexError)"

text \<open>The format \<open>{n:02d}\<close>.\<close>

definition fmt_02d :: "nat \<Rightarrow> string" where
  "fmt_02d n = replicate (2 - length (dec n)) CHR ''0'' @ dec n"

section \<open>Circle detection (src/core/auto\_detect.py)\<close>

text \<open>
  \<open>detect_circles\<close> converts the circles to \<open>np.uint16\<close>, so \<open>center_x\<close>, \<open>center_y\<close>
  and \<open>radius\<close> are 16-bit unsigned scalars: \<open>center_x - radius\<close> wraps around, and
  the coordinates of the region are what NumPy's operators return.
\<close>

type_synonym circle = "u16 \<times> u16 \<times> u16"

text \<open>\<open>max(0, c - radius - 2)\<close>.\<close>

definition low_edge :: "numpy_rules \<Rightarrow> scalar \<Rightarrow> scalar \<Rightarrow> py_error + scalar" where
  "low_edge rules c radius =
     bnd (arith rules (-) c radius) (\<lambda>d.
     bnd (arith rules (-) d (Py 2)) (\<lambda>e.
     Inr (py_max (Py 0) e)))"

text \<open>\<open>min(limit - x, radius * 2 + 4)\<close> for \<open>limit\<close> the width or height of the pixmap,
  a Python int, and \<open>x\<close> the value of \<open>low_edge\<close>.\<close>

definition extent :: "numpy_rules \<Rightarrow> int \<Rightarrow> scalar \<Rightarrow> scalar \<Rightarrow> py_error + scalar" where
  "extent rules limit x radius =
     bnd (arith rules (-) (Py limit) x) (\<lambda>a.
     bnd (arith rules (*) radius (Py 2)) (\<lambda>m.
     bnd (arith rules (+) m (Py 4)) (\<lambda>b.
     Inr (py_min a b))))"

text \<open>The four assignments \<open>x\<close>, \<open>y\<close>, \<open>w\<close>, \<open>h\<close> of the loop body, for the centre and the
  radius of a circle.\<close>

definition circle_box ::
  "numpy_rules \<Rightarrow> QPixmap \<Rightarrow> scalar \<Rightarrow> scalar \<Rightarrow> scalar \<Rightarrow>
   py_error + scalar \<times> scalar \<times> scalar \<times> scalar" where
  "circle_box rules pixmap center_x center_y radius =
     bnd (low_edge rules center_x radius) (\<lambda>x.
     bnd (low_edge rules center_y radius) (\<lambda>y.
     bnd (extent rules (pm_width pixmap) x radius) (\<lambda>w.
     bnd (extent rules (pm_height pixmap) y radius) (\<lambda>h.
     Inr (x, y, w, h)))))"

text \<open>The loop over \<open>enumerate(circles[0, :])\<close>; \<open>ids\<close> supplies the fresh identifiers
  of the regions. The attributes \<open>is_circle\<close>, \<open>circle_center\<close> and \<open>circle_radius\<close>,
  which the source attaches to the object, are not fields of the dataclass and are not
  kept.\<close>

fun circle_rois ::
  "numpy_rules \<Rightarrow> (nat \<Rightarrow> string) \<Rightarrow> QPixmap \<Rightarrow> nat \<Rightarrow> circle list \<Rightarrow> py_error + scalar ROI list" where
  "circle_rois rules ids pixmap i [] = Inr []"
| "circle_rois rules ids pixmap i ((center_x, center_y, radius) # rest) =
     (case circle_box rules pixmap (U16 center_x) (U16 center_y) (U16 radius) of
        Inl e \<Rightarrow> Inl e
      | Inr (x, y, w, h) \<Rightarrow>
          (case circle_rois rules ids pixmap (i + 1) rest of
             Inl e \<Rightarrow> Inl e
           | Inr rs \<Rightarrow>
               Inr ((new_ROI (ids i) x y w h)\<lparr>roi_name := ''circle_'' @ fmt_02d (i + 1)\<rparr> # rs)))"

text \<open>\<open>detect_circles\<close>. The argument \<open>hough\<close> stands for the grey conversion, the
  median blur, \<open>cv2.HoughCircles\<close> and the conversion of its result to \<open>uint16\<close>:
  \<open>None\<close> when no circle is found, the list of circles otherwise.\<close>

definition detect_circles ::
  "numpy_rules \<Rightarrow> (image \<Rightarrow> int \<Rightarrow> int \<Rightarrow> circle list option) \<Rightarrow> (nat \<Rightarrow> string) \<Rightarrow>
   QPixmap \<Rightarrow> int \<Rightarrow> int \<Rightarrow> py_error + scalar ROI list" where
  "detect_circles rules hough ids pixmap min_radius max_radius =
     (case qpixmap_to_cv2 pixmap of
        Inl e \<Rightarrow> Inl e
      | Inr None \<Rightarrow> Inr []
      | Inr (Some img) \<Rightarrow>
          (case hough img min_radius max_radius of
             None \<Rightarrow> Inr []
           | Some circles \<Rightarrow> circle_rois rules ids pixmap 0 circles))"

text \<open>What the specification asks of the box of a detected region.\<close>

definition within_image :: "QPixmap \<Rightarrow> scalar ROI \<Rightarrow> bool" where
  "within_image pixmap r \<longleftrightarrow>
     0 < val (roi_width r) \<and> 0 < val (roi_height r) \<and> 0 \<le> val (roi_x r) \<and> 0 \<le> val (roi_y r) \<and>
     val (roi_x r) + val (roi_width r) \<le> pm_width pixmap \<and>
     val (roi_y r) + val (roi_height r) \<le> pm_height pixmap"

section \<open>Colour flood (src/core/auto\_detect.py)\<close>

text \<open>A row of the statistics of \<open>cv2.connectedComponentsWithStats\<close>: left, top,
  width, height and pixel count of a component. Row 0 is the background.\<close>

type_synonym stat_row = "int \<times> int \<times> int \<times> int \<times> int"

text \<open>The loop of the branch \<open>merge_all\<close> over the labels from 1 on, with the state
  \<open>(all_x1, all_y1, all_x2, all_y2, total_area, valid_count)\<close>.\<close>

fun merge_all_loop ::
  "stat_row list \<Rightarrow> int \<times> int \<times> int \<times> int \<times> int \<times> int \<Rightarrow> int \<times> int \<times> int \<times> int \<times> int \<times> int" where
  "merge_all_loop [] st = st"
| "merge_all_loop ((x1, y1, w1, h1, a) # rest) (all_x1, all_y1, all_x2, all_y2, total_area, valid_count) =
     (if a < 20 then merge_all_loop rest (all_x1, all_y1, all_x2, all_y2, total_area, valid_count)
      else merge_all_loop rest
             (min all_x1 x1, min all_y1 y1, max all_x2 (x1 + w1), max all_y2 (y1 + h1),
              total_area + a, valid_count + 1))"

text \<open>\<open>detect_at_point\<close>. The argument \<open>components\<close> stands for the colour distance to
  the seed, the threshold, the two morphological steps and
  \<open>cv2.connectedComponentsWithStats\<close>: it takes the image, the clamped seed and the
  tolerance and returns the label raster and the statistics, one row per label. The
  coordinates of the region pass through \<open>int(..)\<close>, so they are Python ints. The
  contour the source attaches to the region is not kept.\<close>

definition detect_at_point ::
  "(image \<Rightarrow> int \<Rightarrow> int \<Rightarrow> int \<Rightarrow> int list list \<times> stat_row list) \<Rightarrow> string \<Rightarrow>
   QPixmap \<Rightarrow> int \<Rightarrow> int \<Rightarrow> int \<Rightarrow> bool \<Rightarrow> py_error + int ROI option" where
  "detect_at_point components ident pixmap x y color_tolerance merge_all =
     (case qpixmap_to_cv2 pixmap of
        Inl e \<Rightarrow> Inl e
      | Inr None \<Rightarrow> Inr None
      | Inr (Some img) \<Rightarrow>
          (let h = fst (shape img); w = snd (shape img);
               x = max 0 (min x (w - 1));
               y = max 0 (min y (h - 1));
               labels = fst (components img x y color_tolerance);
               stats = snd (components img x y color_tolerance);
               num_labels = length stats
           in if num_labels < 2 then Inr None
              else if merge_all
              then (case merge_all_loop (tl stats) (w, h, 0, 0, 0, 0) of
                      (all_x1, all_y1, all_x2, all_y2, total_area, valid_count) \<Rightarrow>
                        if valid_count = 0 then Inr None
                        else Inr (Some ((new_ROI ident all_x1 all_y1 (all_x2 - all_x1) (all_y2 - all_y1))
                                          \<lparr>roi_name := ''color_merged''\<rparr>)))
              else (case item labels y of
                      Inl e \<Rightarrow> Inl e
                    | Inr row \<Rightarrow>
                       (case item row x of
                          Inl e \<Rightarrow> Inl e
                        | Inr clicked_label \<Rightarrow>
                            if clicked_label = 0 then Inr None
                            else (case item stats clicked_label of
                                    Inl e \<Rightarrow> Inl e
                                  | Inr (x1, y1, w1, h1, a) \<Rightarrow>
                                      if a < 20 then Inr None
                                      else Inr (Some ((new_ROI ident x1 y1 w1 h1)
                                                        \<lparr>roi_name := ''color_blob''\<rparr>)))))))"

text \<open>The columns of a row, with the right and bottom edge of its box.\<close>

fun row_left :: "stat_row \<Rightarrow> int" where "row_left (x1, y1, w1, h1, a) = x1"
fun row_top :: "stat_row \<Rightarrow> int" where "row_top (x1, y1, w1, h1, a) = y1"
fun row_right :: "stat_row \<Rightarrow> int" where "row_right (x1, y1, w1, h1, a) = x1 + w1"
fun row_bottom :: "stat_row \<Rightarrow> int" where "row_bottom (x1, y1, w1, h1, a) = y1 + h1"
fun row_area :: "stat_row \<Rightarrow> int" where "row_area (x1, y1, w1, h1, a) = a"

text \<open>The components the specification speaks of: not the background, and of at
  least 20 pixels. Their pixel counts add up to \<open>member_area\<close>; the union of their
  boxes is the smallest box \<open>(x, y, width, height)\<close> that holds them all.\<close>

definition qualifying :: "stat_row list \<Rightarrow> stat_row list" where
  "qualifying stats = filter (\<lambda>row. row_area row \<ge> 20) (tl stats)"

definition member_area :: "stat_row list \<Rightarrow> int" where
  "member_area stats = sum_list (map row_area (qualifying stats))"

definition union_box :: "stat_row list \<Rightarrow> int \<times> int \<times> int \<times> int" where
  "union_box rows =
     (let x = Min (set (map row_left rows)); y = Min (set (map row_top rows))
      in (x, y, Max (set (map row_right rows)) - x, Max (set (map row_bottom rows)) - y))"

text \<open>The rows lie in an image of width \<open>w\<close> and height \<open>h\<close>.\<close>

definition rows_in_image :: "int \<Rightarrow> int \<Rightarrow> stat_row list \<Rightarrow> bool" where
  "rows_in_image w h rows \<longleftrightarrow>
     (\<forall>row \<in> set rows.
        0 \<le> row_left row \<and> 0 \<le> row_top row \<and> row_left row < row_right row \<and>
        row_top row < row_bottom row \<and> row_right row \<le> w \<and> row_bottom row \<le> h)"

text \<open>An image for the examples: 20 by 20 pixels, white, with two red rectangles of
  5 by 4 pixels at (2, 2) and (12, 12); the label raster and the statistics of its
  red pixels.\<close>

definition two_rects :: QPixmap where
  "two_rects =
     (let white = (255, 255, 255); red = (255, 0, 0);
          blank = replicate 20 white;
          row_a = replicate 2 white @ replicate 5 red @ replicate 13 white;
          row_b = replicate 12 white @ replicate 5 red @ replicate 3 white
      in \<lparr>isNull = False, pm_width = 20, pm_height = 20,
          pm_image = blank # blank # replicate 4 row_a @ replicate 6 blank @
                     replicate 4 row_b @ replicate 4 blank\<rparr>)"

definition two_rects_labels :: "int list list" where
  "two_rects_labels =
     (let blank = replicate 20 0;
          row_a = replicate 2 0 @ replicate 5 1 @ replicate 13 0;
          row_b = replicate 12 0 @ replicate 5 2 @ replicate 3 0
      in blank # blank # replicate 4 row_a @ replicate 6 blank @
         replicate 4 row_b @ replicate 4 blank)"

definition two_rects_stats :: "stat_row list" where
  "two_rects_stats = [(0, 0, 20, 20, 360), (2, 2, 5, 4, 20), (12, 12, 5, 4, 20)]"

section \<open>Superpixels (src/core/superpixel\_segment.py)\<close>

text \<open>
  A mask is an array of bytes, 0 or 255, of the shape of the image; a contour is a list
  of points \<open>(x, y)\<close>. The fields of \<open>SuperpixelRegion\<close> carry the prefix \<open>sp_\<close>; its
  fields \<open>center\<close> and \<open>avg_color\<close>, floating-point statistics that no function below
  reads, are left out.
\<close>

type_synonym mask = "8 word list list"
type_synonym point = "int \<times> int"
type_synonym contour = "point list"

record SuperpixelRegion =
  sp_label :: int
  sp_mask :: mask
  sp_contour :: contour
  sp_bbox :: "int \<times> int \<times> int \<times> int"
  sp_area :: int

text \<open>\<open>(labels == label).astype(np.uint8) * 255\<close> and \<open>np.unique(labels)\<close>, the sorted
  list of the distinct labels.\<close>

definition mask_of :: "int list list \<Rightarrow> int \<Rightarrow> mask" where
  "mask_of labels l = map (map (\<lambda>v. if v = l then 255 else 0)) labels"

definition unique :: "int list list \<Rightarrow> int list" where
  "unique labels = sort (remdups (concat labels))"

text \<open>\<open>max(contours, key=cv2.contourArea)\<close> on a list with head \<open>best\<close>: the first
  element of greatest key.\<close>

fun max_by :: "('a \<Rightarrow> real) \<Rightarrow> 'a \<Rightarrow> 'a list \<Rightarrow> 'a" where
  "max_by key best [] = best"
| "max_by key best (c # cs) = max_by key (if key c > key best then c else best) cs"

text \<open>\<open>cv2.boundingRect\<close> of a list of points: the smallest upright rectangle of
  pixels that holds them all.\<close>

definition boundingRect :: "contour \<Rightarrow> int \<times> int \<times> int \<times> int" where
  "boundingRect pts =
     (if pts = [] then (0, 0, 0, 0)
      else (let x = Min (set (map fst pts)); y = Min (set (map snd pts))
            in (x, y, Max (set (map fst pts)) - x + 1, Max (set (map snd pts)) - y + 1)))"

text \<open>\<open>int(area)\<close> on a float truncates towards zero.\<close>

definition py_int :: "real \<Rightarrow> int" where
  "py_int a = (if a \<ge> 0 then \<lfloor>a\<rfloor> else \<lceil>a\<rceil>)"

text \<open>The loop of \<open>_extract_regions\<close> over the labels. \<open>findContours\<close> is
  \<open>cv2.findContours\<close> with \<open>RETR_EXTERNAL\<close> and \<open>CHAIN_APPROX_SIMPLE\<close>, and
  \<open>contourArea\<close> is \<open>cv2.contourArea\<close>; both are arguments.\<close>

fun extract_loop ::
  "(mask \<Rightarrow> contour list) \<Rightarrow> (contour \<Rightarrow> real) \<Rightarrow> int list list \<Rightarrow> int list \<Rightarrow>
   SuperpixelRegion list" where
  "extract_loop findContours contourArea labels [] = []"
| "extract_loop findContours contourArea labels (l # ls) =
     (if l < 0 then extract_loop findContours contourArea labels ls
      else (case findContours (mask_of labels l) of
              [] \<Rightarrow> extract_loop findContours contourArea labels ls
            | c # cs \<Rightarrow>
                (let contour = max_by contourArea c cs
                 in \<lparr>sp_label = l, sp_mask = mask_of labels l, sp_contour = contour,
                     sp_bbox = boundingRect contour, sp_area = py_int (contourArea contour)\<rparr>
                    # extract_loop findContours contourArea labels ls)))"

text \<open>\<open>_extract_regions\<close>: the loop, then \<open>regions.sort(key=lambda r: r.area,
  reverse=True)\<close>, a stable sort in descending order.\<close>

definition extract_regions ::
  "(mask \<Rightarrow> contour list) \<Rightarrow> (contour \<Rightarrow> real) \<Rightarrow> int list list \<Rightarrow> SuperpixelRegion list" where
  "extract_regions findContours contourArea labels =
     rev (sort_key sp_area (rev (extract_loop findContours contourArea labels (unique labels))))"

text \<open>The state of a \<open>SuperpixelSegmenter\<close>; the fields \<open>labels\<close> and \<open>regions\<close> carry
  the prefix \<open>seg_\<close>.\<close>

record SuperpixelSegmenter =
  region_size :: int
  ruler :: real
  seg_labels :: "int list list option"
  seg_regions :: "SuperpixelRegion list"

text \<open>\<open>segment\<close>. The two backends are arguments: \<open>segment_skimage\<close> takes the image
  and the region size, \<open>segment_opencv\<close> the ruler as well; either returns a label
  raster or raises. An exception of the first is caught and the second is tried; an
  exception of the second reaches the caller, as does one of \<open>_qpixmap_to_cv2\<close>, which
  is called before the \<open>try\<close>. The result is the new state and the returned list.\<close>

definition segment ::
  "(image \<Rightarrow> int \<Rightarrow> py_error + int list list option) \<Rightarrow>
   (image \<Rightarrow> int \<Rightarrow> real \<Rightarrow> py_error + int list list option) \<Rightarrow>
   (mask \<Rightarrow> contour list) \<Rightarrow> (contour \<Rightarrow> real) \<Rightarrow>
   SuperpixelSegmenter \<Rightarrow> QPixmap \<Rightarrow> py_error + SuperpixelSegmenter \<times> SuperpixelRegion list" where
  "segment segment_skimage segment_opencv findContours contourArea seg pixmap =
     (case qpixmap_to_cv2 pixmap of
        Inl e \<Rightarrow> Inl e
      | Inr None \<Rightarrow> Inr (seg, [])
      | Inr (Some img) \<Rightarrow>
          (case (case segment_skimage img (region_size seg) of
                   Inr ls \<Rightarrow> Inr ls
                 | Inl e \<Rightarrow> segment_opencv img (region_size seg) (ruler seg)) of
             Inl e \<Rightarrow> Inl e
           | Inr None \<Rightarrow> Inr (seg\<lparr>seg_labels := None\<rparr>, [])
           | Inr (Some ls) \<Rightarrow>
               (let rs = extract_regions findContours contourArea ls
                in Inr (seg\<lparr>seg_labels := Some ls, seg_regions := rs\<rparr>, rs))))"

text \<open>\<open>np.zeros_like\<close>, and \<open>cv2.bitwise_or\<close>: on two arrays of the same shape it is
  the bytewise or. On arrays of different shapes OpenCV raises an error unless it can
  take one of them for a scalar; what it returns then is the argument \<open>unequal\<close>.\<close>

definition zeros_like :: "mask \<Rightarrow> mask" where
  "zeros_like m = map (map (\<lambda>v. 0)) m"

definition bitwise_or ::
  "(mask \<Rightarrow> mask \<Rightarrow> py_error + mask) \<Rightarrow> mask \<Rightarrow> mask \<Rightarrow> py_error + mask" where
  "bitwise_or unequal a b =
     (if map length a = map length b then Inr (map2 (map2 (\<lambda>u v. u OR v)) a b)
      else unequal a b)"

text \<open>The loop of \<open>merge_regions\<close> that joins the masks into \<open>merged_mask\<close>.\<close>

fun or_masks ::
  "(mask \<Rightarrow> mask \<Rightarrow> py_error + mask) \<Rightarrow> mask \<Rightarrow> SuperpixelRegion list \<Rightarrow> py_error + mask" where
  "or_masks unequal merged_mask [] = Inr merged_mask"
| "or_masks unequal merged_mask (r # rs) =
     (case bitwise_or unequal merged_mask (sp_mask r) of
        Inl e \<Rightarrow> Inl e
      | Inr m \<Rightarrow> or_masks unequal m rs)"

text \<open>\<open>merge_regions\<close>. The coordinates of the region are the Python ints of a box
  that \<open>cv2.boundingRect\<close> returned. The attributes \<open>contour\<close> and \<open>is_segmented\<close>,
  attached to the object in the source, are not kept.\<close>

definition merge_regions ::
  "(mask \<Rightarrow> mask \<Rightarrow> py_error + mask) \<Rightarrow> (mask \<Rightarrow> contour list) \<Rightarrow> (contour \<Rightarrow> real) \<Rightarrow>
   string \<Rightarrow> SuperpixelRegion list \<Rightarrow> py_error + int ROI option" where
  "merge_regions unequal findContours contourArea ident regions =
     (case regions of
        [] \<Rightarrow> Inr None
      | [r] \<Rightarrow> (case sp_bbox r of (x, y, w, h) \<Rightarrow> Inr (Some (new_ROI ident x y w h)))
      | r # _ \<Rightarrow>
          (case or_masks unequal (zeros_like (sp_mask r)) regions of
             Inl e \<Rightarrow> Inl e
           | Inr merged_mask \<Rightarrow>
               (case findContours merged_mask of
                  [] \<Rightarrow> Inr None
                | c # cs \<Rightarrow>
                    (case boundingRect (max_by contourArea c cs) of
                       (bx, by, bw, bh) \<Rightarrow>
                         Inr (Some ((new_ROI ident bx by bw bh)
                               \<lparr>roi_name := ''superpixel_merge_'' @ dec (length regions)\<rparr>))))))"

subsection \<open>What the specification says about superpixels\<close>

text \<open>The number of set pixels of a mask, and their positions \<open>(x, y)\<close>.\<close>

definition count_nonzero :: "mask \<Rightarrow> nat" where
  "count_nonzero m = length (filter (\<lambda>v. v \<noteq> 0) (concat m))"

definition nonzero_points :: "mask \<Rightarrow> point list" where
  "nonzero_points m =
     concat (map (\<lambda>y. map (\<lambda>x. (int x, int y))
                         (filter (\<lambda>x. m ! y ! x \<noteq> 0) [0 ..< length (m ! y)]))
                 [0 ..< length m])"

definition masks_disjoint :: "mask \<Rightarrow> mask \<Rightarrow> bool" where
  "masks_disjoint a b \<longleftrightarrow> set (nonzero_points a) \<inter> set (nonzero_points b) = {}"

text \<open>A label raster of an image of width \<open>w\<close> and height \<open>h\<close> whose labels count
  from 0, as both backends number them.\<close>

definition label_raster :: "int \<Rightarrow> int \<Rightarrow> int list list \<Rightarrow> bool" where
  "label_raster w h labels \<longleftrightarrow>
     int (length labels) = h \<and> (\<forall>row \<in> set labels. int (length row) = w \<and> (\<forall>v \<in> set row. 0 \<le> v))"

text \<open>A point lies in a rectangle; a rectangle lies in the box of a region.\<close>

definition in_rect :: "point \<Rightarrow> int \<times> int \<times> int \<times> int \<Rightarrow> bool" where
  "in_rect p b = (case b of (x, y, w, h) \<Rightarrow>
     x \<le> fst p \<and> fst p < x + w \<and> y \<le> snd p \<and> snd p < y + h)"

definition bbox_contains :: "int ROI \<Rightarrow> int \<times> int \<times> int \<times> int \<Rightarrow> bool" where
  "bbox_contains roi b = (case b of (x, y, w, h) \<Rightarrow>
     roi_x roi \<le> x \<and> roi_y roi \<le> y \<and>
     roi_x roi + roi_width roi \<ge> x + w \<and> roi_y roi + roi_height roi \<ge> y + h)"

text \<open>What is used of the external contours OpenCV returns for a mask: each is a
  non-empty list of set pixels of the mask, and every set pixel of the mask lies in
  the bounding rectangle of one of them.\<close>

definition external_contours :: "(mask \<Rightarrow> contour list) \<Rightarrow> mask \<Rightarrow> bool" where
  "external_contours findContours m \<longleftrightarrow>
     (\<forall>c \<in> set (findContours m). c \<noteq> [] \<and> set c \<subseteq> set (nonzero_points m)) \<and>
     (\<forall>p \<in> set (nonzero_points m). \<exists>c \<in> set (findContours m). in_rect p (boundingRect c))"

text \<open>A region as \<open>_extract_regions\<close> builds it: the contour consists of set pixels of
  the mask and the box is the bounding rectangle of the contour. The masks of the
  regions of one run all have the shape of the label raster.\<close>

definition region_wf :: "SuperpixelRegion \<Rightarrow> bool" where
  "region_wf r \<longleftrightarrow>
     sp_contour r \<noteq> [] \<and> set (sp_contour r) \<subseteq> set (nonzero_points (sp_mask r)) \<and>
     sp_bbox r = boundingRect (sp_contour r)"

definition same_shape :: "SuperpixelRegion list \<Rightarrow> bool" where
  "same_shape regions \<longleftrightarrow>
     (\<forall>r \<in> set regions. map length (sp_mask r) = map length (sp_mask (hd regions)))"

text \<open>The box of a region.\<close>

definition roi_box :: "int ROI \<Rightarrow> int \<times> int \<times> int \<times> int" where
  "roi_box r = (roi_x r, roi_y r, roi_width r, roi_height r)"

subsection \<open>A reference for the two OpenCV calls\<close>

text \<open>
  For the examples the two library calls are replaced by executable stand-ins. The
  contours of a mask are the 8-connected components of its set pixels; OpenCV returns
  them in the reverse of the scan order in which it comes upon them, the last found
  first. A component is given here by all of its pixels in scan order, where OpenCV
  gives the corner points of its outline, in the order of the outline: the two agree
  on a component of a single pixel and on one of two pixels side by side, and the
  examples use no other. The area of a contour is the area of its polygon by the
  shoelace formula, as in \<open>cv2.contourArea\<close>.
\<close>

definition adjacent8 :: "point \<Rightarrow> point \<Rightarrow> bool" where
  "adjacent8 p q \<longleftrightarrow> \<bar>fst p - fst q\<bar> \<le> 1 \<and> \<bar>snd p - snd q\<bar> \<le> 1"

fun grow :: "nat \<Rightarrow> point list \<Rightarrow> point list \<Rightarrow> point list \<times> point list" where
  "grow 0 cmp rest = (cmp, rest)"
| "grow (Suc n) cmp rest =
     (let new = filter (\<lambda>q. \<exists>p \<in> set cmp. adjacent8 p q) rest
      in if new = [] then (cmp, rest)
         else grow n (cmp @ new) (filter (\<lambda>q. \<not> (\<exists>p \<in> set cmp. adjacent8 p q)) rest))"

fun components8 :: "nat \<Rightarrow> point list \<Rightarrow> point list list" where
  "components8 0 ps = []"
| "components8 (Suc n) [] = []"
| "components8 (Suc n) (p # ps) =
     (case grow (length ps) [p] ps of (cmp, rest) \<Rightarrow> cmp # components8 n rest)"

definition ref_findContours :: "mask \<Rightarrow> contour list" where
  "ref_findContours m = rev (components8 (length (nonzero_points m)) (nonzero_points m))"

fun cross_sum :: "point \<Rightarrow> point list \<Rightarrow> int" where
  "cross_sum first [] = 0"
| "cross_sum first [p] = fst p * snd first - fst first * snd p"
| "cross_sum first (p # q # ps) = fst p * snd q - fst q * snd p + cross_sum first (q # ps)"

definition ref_contourArea :: "contour \<Rightarrow> real" where
  "ref_contourArea c = (case c of [] \<Rightarrow> 0 | p # ps \<Rightarrow> \<bar>real_of_int (cross_sum p c)\<bar> / 2)"

section \<open>Overlap merging (src/core/auto\_detect.py)\<close>

text \<open>
  \<open>_calculate_iou\<close>, on regions whose coordinates may be NumPy scalars: \<open>detect_all\<close>
  hands the regions of \<open>detect_circles\<close> to the merger together with those of the
  other detectors. Each operator is the one of \<open>arith\<close>, and the statements are
  evaluated in the order of the source, so that the first exception is the one
  raised. The last line divides with \<open>/\<close>, which yields the float nearest to the
  quotient: that rounding is the argument \<open>rnd\<close>, and the identity gives exact
  arithmetic.
\<close>

definition calculate_iou ::
  "numpy_rules \<Rightarrow> (real \<Rightarrow> real) \<Rightarrow> scalar ROI \<Rightarrow> scalar ROI \<Rightarrow> py_error + real" where
  "calculate_iou rules rnd roi1 roi2 =
     (let x1 = py_max (roi_x roi1) (roi_x roi2);
          y1 = py_max (roi_y roi1) (roi_y roi2)
      in bnd (np_right rules roi1) (\<lambda>right1.
         bnd (np_right rules roi2) (\<lambda>right2.
         bnd (np_bottom rules roi1) (\<lambda>bottom1.
         bnd (np_bottom rules roi2) (\<lambda>bottom2.
         (let x2 = py_min right1 right2;
              y2 = py_min bottom1 bottom2
          in if val x2 \<le> val x1 \<or> val y2 \<le> val y1 then Inr 0
             else bnd (arith rules (-) x2 x1) (\<lambda>dx.
                  bnd (arith rules (-) y2 y1) (\<lambda>dy.
                  bnd (arith rules (*) dx dy) (\<lambda>intersection.
                  bnd (np_area rules roi1) (\<lambda>area1.
                  bnd (np_area rules roi2) (\<lambda>area2.
                  bnd (arith rules (+) area1 area2) (\<lambda>total.
                  bnd (arith rules (-) total intersection) (\<lambda>union_area.
                  if val union_area > 0 then true_divide rules rnd intersection union_area
                  else Inr 0)))))))))))))"

text \<open>The inner loop of \<open>_merge_overlapping_rois\<close>: it walks the kept regions in
  order and stops at the first one whose IoU with the candidate is above the
  threshold.\<close>

fun should_merge ::
  "numpy_rules \<Rightarrow> (real \<Rightarrow> real) \<Rightarrow> real \<Rightarrow> scalar ROI \<Rightarrow> scalar ROI list \<Rightarrow> py_error + bool" where
  "should_merge rules rnd iou_threshold roi [] = Inr False"
| "should_merge rules rnd iou_threshold roi (existing # rest) =
     (case calculate_iou rules rnd roi existing of
        Inl e \<Rightarrow> Inl e
      | Inr iou \<Rightarrow>
          if iou > iou_threshold then Inr True
          else should_merge rules rnd iou_threshold roi rest)"

text \<open>The outer loop, with the list \<open>merged\<close> as its state.\<close>

fun merge_loop ::
  "numpy_rules \<Rightarrow> (real \<Rightarrow> real) \<Rightarrow> real \<Rightarrow> scalar ROI list \<Rightarrow> scalar ROI list \<Rightarrow>
   py_error + scalar ROI list" where
  "merge_loop rules rnd iou_threshold merged [] = Inr merged"
| "merge_loop rules rnd iou_threshold merged (roi # rest) =
     (case should_merge rules rnd iou_threshold roi merged of
        Inl e \<Rightarrow> Inl e
      | Inr True \<Rightarrow> merge_loop rules rnd iou_threshold merged rest
      | Inr False \<Rightarrow> merge_loop rules rnd iou_threshold (merged @ [roi]) rest)"

text \<open>\<open>sorted(rois, key=lambda r: r.area, reverse=True)\<close>. Python first computes
  the key of every element, in the order of the list (\<open>area_keys\<close>), and then sorts by
  comparing the keys, which goes by their values. CPython sorts with \<open>reverse=True\<close> by
  reversing the list, sorting it stably in ascending order and reversing the result;
  \<open>sort_key\<close> is a stable ascending sort. \<open>key_value\<close> is the value of the key of a
  region whose key has been computed.\<close>

fun area_keys :: "numpy_rules \<Rightarrow> scalar ROI list \<Rightarrow> py_error + scalar list" where
  "area_keys rules [] = Inr []"
| "area_keys rules (r # rs) =
     (case np_area rules r of
        Inl e \<Rightarrow> Inl e
      | Inr k \<Rightarrow> (case area_keys rules rs of Inl e \<Rightarrow> Inl e | Inr ks \<Rightarrow> Inr (k # ks)))"

definition key_value :: "numpy_rules \<Rightarrow> scalar ROI \<Rightarrow> int" where
  "key_value rules r = (case np_area rules r of Inl e \<Rightarrow> 0 | Inr k \<Rightarrow> val k)"

definition sorted_rois :: "numpy_rules \<Rightarrow> scalar ROI list \<Rightarrow> py_error + scalar ROI list" where
  "sorted_rois rules rois =
     bnd (area_keys rules rois) (\<lambda>ks. Inr (rev (sort_key (key_value rules) (rev rois))))"

definition merge_overlapping_rois ::
  "numpy_rules \<Rightarrow> (real \<Rightarrow> real) \<Rightarrow> scalar ROI list \<Rightarrow> real \<Rightarrow> py_error + scalar ROI list" where
  "merge_overlapping_rois rules rnd rois iou_threshold =
     (if rois = [] then Inr []
      else bnd (sorted_rois rules rois) (\<lambda>sorted_list.
           merge_loop rules rnd iou_threshold [] sorted_list))"

subsection \<open>What the specification says about merging\<close>

text \<open>The pixels a box covers, for the set reading of intersection over union.\<close>

definition pixels :: "int ROI \<Rightarrow> (int \<times> int) set" where
  "pixels r = {roi_x r ..< right r} \<times> {roi_y r ..< bottom r}"

text \<open>The intersection over union of two boxes of integers in the words of the
  specification: \<open>intersectionArea / (areaA + areaB - intersectionArea)\<close>, or 0 if the
  boxes do not overlap.\<close>

definition box_iou :: "(real \<Rightarrow> real) \<Rightarrow> int ROI \<Rightarrow> int ROI \<Rightarrow> real" where
  "box_iou rnd roi1 roi2 =
     (let x1 = max (roi_x roi1) (roi_x roi2);
          y1 = max (roi_y roi1) (roi_y roi2);
          x2 = min (right roi1) (right roi2);
          y2 = min (bottom roi1) (bottom roi2)
      in if x2 \<le> x1 \<or> y2 \<le> y1 then 0
         else (let intersection = (x2 - x1) * (y2 - y1);
                   union_area = area roi1 + area roi2 - intersection
               in if union_area > 0
                  then rnd (real_of_int intersection / real_of_int union_area)
                  else 0))"

text \<open>The greedy rule in the specification's words, on the sorted candidates: the
  regions kept among the first \<open>n\<close> candidates. Candidate \<open>n\<close> joins them exactly when
  its IoU with every region kept so far does not exceed the threshold.\<close>

primrec kept_upto :: "('r \<Rightarrow> 'r \<Rightarrow> real) \<Rightarrow> real \<Rightarrow> 'r list \<Rightarrow> nat \<Rightarrow> 'r list" where
  "kept_upto iou t cands 0 = []"
| "kept_upto iou t cands (Suc n) =
     (if list_all (\<lambda>e. iou (cands ! n) e \<le> t) (kept_upto iou t cands n)
      then kept_upto iou t cands n @ [cands ! n]
      else kept_upto iou t cands n)"

text \<open>The candidates as the specification orders them: by the area of the box,
  greatest first, regions of equal area in their input order.\<close>

definition by_area :: "int ROI list \<Rightarrow> int ROI list" where
  "by_area rois = rev (sort_key area (rev rois))"

text \<open>A list of regions that the outer loop takes over one by one when it starts
  from \<open>acc\<close>: no region is rejected against the ones before it.\<close>

fun accepted :: "numpy_rules \<Rightarrow> (real \<Rightarrow> real) \<Rightarrow> real \<Rightarrow> scalar ROI list \<Rightarrow> scalar ROI list \<Rightarrow> bool" where
  "accepted rules rnd t acc [] = True"
| "accepted rules rnd t acc (r # rs) =
     (should_merge rules rnd t r acc = Inr False \<and> accepted rules rnd t (acc @ [r]) rs)"

text \<open>Two circles for the examples, as \<open>cv2.HoughCircles\<close> may report them on an image
  of 512 by 512 pixels: radius 100 around (150, 150) and around (286, 218); and a
  blank image of that size.\<close>

definition two_circles :: "circle list" where
  "two_circles = [(150, 150, 100), (286, 218, 100)]"

definition blank512 :: QPixmap where
  "blank512 = \<lparr>isNull = False, pm_width = 512, pm_height = 512,
               pm_image = replicate 512 (replicate 512 (255, 255, 255))\<rparr>"

text \<open>The regions that \<open>detect_circles\<close> builds for the two circles under NumPy 2.\<close>

definition circle_a :: "scalar ROI" where
  "circle_a = (new_ROI ''c0'' (U16 48) (U16 48) (U16 204) (U16 204))\<lparr>roi_name := ''circle_01''\<rparr>"

definition circle_b :: "scalar ROI" where
  "circle_b = (new_ROI ''c0'' (U16 184) (U16 116) (U16 204) (U16 204))\<lparr>roi_name := ''circle_02''\<rparr>"

section \<open>The contour detectors (src/core/auto\_detect.py)\<close>









section \<open>Click segmentation (src/core/smart\_segment.py)\<close>







section \<open>Intersection over union\<close>

subsection \<open>The specification's IoU on boxes of integers\<close>

lemma pixels_inter:
  "pixels a \<inter> pixels b =
     {max (roi_x a) (roi_x b) ..< min (right a) (right b)} \<times>
     {max (roi_y a) (roi_y b) ..< min (bottom a) (bottom b)}"
  by (auto simp: pixels_def)

lemma card_box: "card ({a ..< b} \<times> {c ..< d}) = nat (b - a) * nat (d - c)" for a b c d :: int
  by (simp add: card_cartesian_product)

lemma card_pixels: "0 < roi_width r \<Longrightarrow> 0 < roi_height r \<Longrightarrow> int (card (pixels r)) = area r"
  by (simp add: pixels_def card_cartesian_product right_def bottom_def area_def nat_mult_distrib)

lemma pixels_inter_empty:
  "pixels a \<inter> pixels b = {} \<longleftrightarrow>
     min (right a) (right b) \<le> max (roi_x a) (roi_x b) \<or>
     min (bottom a) (bottom b) \<le> max (roi_y a) (roi_y b)"
  unfolding pixels_inter by (auto simp: Sigma_empty_iff)

lemma card_pixels_inter:
  assumes "pixels a \<inter> pixels b \<noteq> {}"
  shows "int (card (pixels a \<inter> pixels b)) =
     (min (right a) (right b) - max (roi_x a) (roi_x b)) *
     (min (bottom a) (bottom b) - max (roi_y a) (roi_y b))"
proof -
  define p where "p = min (right a) (right b) - max (roi_x a) (roi_x b)"
  define q where "q = min (bottom a) (bottom b) - max (roi_y a) (roi_y b)"
  have "0 < p" "0 < q"
    using assms unfolding pixels_inter_empty p_def q_def by linarith+
  then have "int (nat p * nat q) = p * q" by simp
  then show ?thesis unfolding pixels_inter card_box p_def q_def .
qed

lemma iou_unfold:
  assumes "\<not> (min (right a) (right b) \<le> max (roi_x a) (roi_x b) \<or>
              min (bottom a) (bottom b) \<le> max (roi_y a) (roi_y b))"
    and "i = (min (right a) (right b) - max (roi_x a) (roi_x b)) *
             (min (bottom a) (bottom b) - max (roi_y a) (roi_y b))"
    and "0 < area a + area b - i"
  shows "box_iou rnd a b = rnd (real_of_int i / real_of_int (area a + area b - i))"
  using assms(1,3) unfolding box_iou_def Let_def assms(2) by (simp only: if_False if_True)

lemma iou_pixels:
  assumes "0 < roi_width a" "0 < roi_height a" "0 < roi_width b" "0 < roi_height b"
  shows "box_iou rnd a b =
     (if pixels a \<inter> pixels b = {} then 0
      else rnd (real (card (pixels a \<inter> pixels b)) /
                real (card (pixels a) + card (pixels b) - card (pixels a \<inter> pixels b))))"
proof (cases "pixels a \<inter> pixels b = {}")
  case True
  then show ?thesis by (simp add: box_iou_def pixels_inter_empty Let_def)
next
  case False
  define A B I where "A = card (pixels a)" and "B = card (pixels b)"
    and "I = card (pixels a \<inter> pixels b)"
  define i where "i = (min (right a) (right b) - max (roi_x a) (roi_x b)) *
     (min (bottom a) (bottom b) - max (roi_y a) (roi_y b))"
  have fin: "finite (pixels a)" "finite (pixels b)" by (simp_all add: pixels_def)
  have le: "I \<le> A" unfolding I_def A_def
    by (rule card_mono) (use fin in auto)
  have pos: "0 < I"
    using False fin by (simp add: I_def card_gt_0_iff)
  have i: "int I = i" unfolding I_def i_def by (rule card_pixels_inter [OF False])
  have ab: "int A = area a" "int B = area b"
    unfolding A_def B_def by (rule card_pixels [OF assms(1,2)], rule card_pixels [OF assms(3,4)])
  have "I \<le> B" unfolding I_def B_def
    by (rule card_mono) (use fin in auto)
  with pos have bpos: "0 < B" by simp
  have u: "int (A + B - I) = area a + area b - i"
    using le ab i by linarith
  have upos: "0 < area a + area b - i"
    using u le bpos by linarith
  have "box_iou rnd a b = rnd (real_of_int i / real_of_int (area a + area b - i))"
    using False upos unfolding pixels_inter_empty by (intro iou_unfold) (simp_all only: i_def not_False_eq_True)
  also have "real_of_int i = real I"
    using i by (metis of_int_of_nat_eq)
  also have "real_of_int (area a + area b - i) = real (A + B - I)"
    using u by (metis of_int_of_nat_eq)
  finally show ?thesis using False by (simp add: A_def B_def I_def)
qed

lemma iou_sym: "box_iou rnd a b = box_iou rnd b a"
  by (simp add: box_iou_def Let_def max.commute min.commute mult.commute add.commute)


lemma iou_range:
  assumes "mono rnd" "rnd 0 = 0" "rnd 1 = 1"
  shows "0 \<le> box_iou rnd a b \<and> box_iou rnd a b \<le> 1"
proof -
  define x1 y1 x2 y2 where "x1 = max (roi_x a) (roi_x b)" and "y1 = max (roi_y a) (roi_y b)"
    and "x2 = min (right a) (right b)" and "y2 = min (bottom a) (bottom b)"
  show ?thesis
  proof (cases "x2 \<le> x1 \<or> y2 \<le> y1")
    case True
    then show ?thesis by (simp add: box_iou_def Let_def x1_def y1_def x2_def y2_def)
  next
    case False
    define i where "i = (x2 - x1) * (y2 - y1)"
    define u where "u = area a + area b - i"
    have ipos: "0 < i" using False by (simp add: i_def)
    have eq: "box_iou rnd a b = (if u > 0 then rnd (real_of_int i / real_of_int u) else 0)"
      using False by (simp add: box_iou_def Let_def x1_def y1_def x2_def y2_def i_def u_def)
    have wa: "x2 - x1 \<le> roi_width a" "y2 - y1 \<le> roi_height a"
      by (simp_all add: x1_def x2_def y1_def y2_def right_def bottom_def)
    have wb: "x2 - x1 \<le> roi_width b" "y2 - y1 \<le> roi_height b"
      by (simp_all add: x1_def x2_def y1_def y2_def right_def bottom_def)
    have "i \<le> area a" unfolding i_def area_def
      using wa False by (intro mult_mono) auto
    moreover have "i \<le> area b" unfolding i_def area_def
      using wb False by (intro mult_mono) auto
    ultimately have iu: "i \<le> u" using ipos by (simp add: u_def)
    then have upos: "0 < u" using ipos by simp
    have q: "0 \<le> real_of_int i / real_of_int u" "real_of_int i / real_of_int u \<le> 1"
      using ipos iu upos by simp_all
    have "rnd 0 \<le> rnd (real_of_int i / real_of_int u)" "rnd (real_of_int i / real_of_int u) \<le> rnd 1"
      using assms(1) q by (auto dest: monoD)
    then show ?thesis using eq upos assms(2,3) by simp
  qed
qed

lemma iou_self:
  assumes "rnd 1 = 1" "0 < roi_width a" "0 < roi_height a"
  shows "box_iou rnd a a = 1"
proof -
  have "0 < area a" using assms(2,3) by (simp add: area_def)
  then show ?thesis using assms
    by (simp add: box_iou_def Let_def right_def bottom_def area_def)
qed

text \<open>
  The IoU of two boxes of integers of positive width and height is symmetric, lies
  between 0 and 1, is 1 for a box with itself, is 0 when the boxes share no pixel, and
  otherwise is the (rounded) quotient of the number of shared pixels by the number
  of pixels in the union.
\<close>

lemma box_iou_properties:
  assumes "mono rnd" and "rnd 0 = 0" and "rnd 1 = 1"
    and "0 < roi_width a" and "0 < roi_height a"
    and "0 < roi_width b" and "0 < roi_height b"
  shows "box_iou rnd a b = box_iou rnd b a
       \<and> 0 \<le> box_iou rnd a b \<and> box_iou rnd a b \<le> 1
       \<and> box_iou rnd a a = 1
       \<and> (pixels a \<inter> pixels b = {} \<longrightarrow> box_iou rnd a b = 0)
       \<and> (pixels a \<inter> pixels b \<noteq> {} \<longrightarrow>
            box_iou rnd a b =
              rnd (real (card (pixels a \<inter> pixels b)) /
                   real (card (pixels a) + card (pixels b) - card (pixels a \<inter> pixels b))))
       \<and> int (card (pixels a)) = area a \<and> int (card (pixels b)) = area b"
proof -
  have s: "box_iou rnd a b = box_iou rnd b a" by (rule iou_sym)
  have r: "0 \<le> box_iou rnd a b \<and> box_iou rnd a b \<le> 1"
    by (rule iou_range [OF assms(1-3)])
  have i: "box_iou rnd a a = 1" by (rule iou_self [of rnd a, OF assms(3) assms(4) assms(5)])
  have p: "box_iou rnd a b =
     (if pixels a \<inter> pixels b = {} then 0
      else rnd (real (card (pixels a \<inter> pixels b)) /
                real (card (pixels a) + card (pixels b) - card (pixels a \<inter> pixels b))))"
    by (rule iou_pixels [OF assms(4-7)])
  have c: "int (card (pixels a)) = area a" "int (card (pixels b)) = area b"
    by (rule card_pixels [OF assms(4,5)], rule card_pixels [OF assms(6,7)])
  from p have p0: "pixels a \<inter> pixels b = {} \<longrightarrow> box_iou rnd a b = 0" by simp
  from p have p1: "pixels a \<inter> pixels b \<noteq> {} \<longrightarrow>
            box_iou rnd a b =
              rnd (real (card (pixels a \<inter> pixels b)) /
                   real (card (pixels a) + card (pixels b) - card (pixels a \<inter> pixels b)))"
    by simp
  show ?thesis using s r i p0 p1 c by blast
qed

subsection \<open>The computed IoU\<close>

lemma bnd_Inr [simp]: "bnd (Inr v) f = f v"
  by (simp add: bnd_def)

lemma bnd_Inl [simp]: "bnd (Inl e) f = Inl e"
  by (simp add: bnd_def)

lemma bnd_eq_Inr: "bnd m f = Inr y \<longleftrightarrow> (\<exists>v. m = Inr v \<and> f v = Inr y)"
  by (cases m) simp_all

lemma arith_Py [simp]: "arith rules f (Py a) (Py b) = Inr (Py (f a b))"
  by (simp add: arith_def)

lemma true_divide_Py [simp]:
  "true_divide rules rnd (Py a) (Py b) = Inr (rnd (real_of_int a / real_of_int b))"
  by (simp add: true_divide_def)

lemma is_py_iff: "is_py s \<longleftrightarrow> (\<exists>n. s = Py n)"
  by (cases s) simp_all

lemma python_ints_fields:
  assumes "python_ints r"
  shows "roi_x r = Py (roi_x (as_ints r))" "roi_y r = Py (roi_y (as_ints r))"
    "roi_width r = Py (roi_width (as_ints r))" "roi_height r = Py (roi_height (as_ints r))"
  using assms by (auto simp: python_ints_def as_ints_def is_py_iff)

lemma py_max_Py [simp]: "py_max (Py a) (Py b) = Py (max a b)"
  by (simp add: py_max_def max_def)

lemma py_min_Py [simp]: "py_min (Py a) (Py b) = Py (min a b)"
  by (simp add: py_min_def min_def)

text \<open>On regions whose coordinates are Python ints, as the dataclass declares them,
  the computed IoU never raises and is the IoU of the specification, under either
  rule of NumPy.\<close>

lemma calculate_iou_python_ints:
  assumes "python_ints a" and "python_ints b"
  shows "calculate_iou rules rnd a b = Inr (box_iou rnd (as_ints a) (as_ints b))"
  unfolding calculate_iou_def box_iou_def np_right_def np_bottom_def np_area_def
    python_ints_fields [OF assms(1)] python_ints_fields [OF assms(2)]
  by (simp add: Let_def right_def bottom_def area_def)

lemma detect_two_circles:
  "detect_circles NEP50 (\<lambda>img lo hi. Some two_circles) (\<lambda>i. ''c0'') blank512 5 100
     = Inr [circle_a, circle_b]"
  by (simp add: detect_circles_def qpixmap_to_cv2_def bytes_per_line_def blank512_def
      two_circles_def circle_box_def low_edge_def extent_def arith_def weak_def in_u16_def
      py_max_def py_min_def fmt_02d_def dec.simps circle_a_def circle_b_def)

text \<open>
  Claim C3 at two regions of \<open>detect_circles\<close>. On an image of 512 by 512 pixels and
  the circles of radius 100 around (150, 150) and (286, 218), \<open>detect_circles\<close> under
  NumPy 2 returns the boxes (48, 48, 204, 204) and (184, 116, 204, 204) with \<open>uint16\<close>
  coordinates. They share 9248 pixels and cover 73984 together, an IoU of 1/8; the
  sum of the two areas wraps around in \<open>uint16\<close>, the union comes out as 8448, and
  the computed IoU is 289/264, greater than 1.
\<close>

theorem C3_iou_uint16_wraps:
  "detect_circles NEP50 (\<lambda>img lo hi. Some two_circles) (\<lambda>i. ''c0'') blank512 5 100
     = Inr [circle_a, circle_b]
   \<and> calculate_iou NEP50 (\<lambda>q. q) circle_b circle_a = Inr (289 / 264)
   \<and> box_iou (\<lambda>q. q) (as_ints circle_b) (as_ints circle_a) = 1 / 8
   \<and> np_area NEP50 circle_a = Inr (U16 41616) \<and> np_area NEP50 circle_b = Inr (U16 41616)
   \<and> arith NEP50 (+) (U16 41616) (U16 41616) = Inr (U16 17696)"
proof (intro conjI)
  show "detect_circles NEP50 (\<lambda>img lo hi. Some two_circles) (\<lambda>i. ''c0'') blank512 5 100
     = Inr [circle_a, circle_b]"
    by (rule detect_two_circles)
  show "calculate_iou NEP50 (\<lambda>q. q) circle_b circle_a = Inr (289 / 264)"
    by (simp add: calculate_iou_def np_right_def np_bottom_def np_area_def arith_def
        true_divide_def py_max_def py_min_def circle_a_def circle_b_def new_ROI_def Let_def)
  show "box_iou (\<lambda>q. q) (as_ints circle_b) (as_ints circle_a) = 1 / 8"
    by (simp add: box_iou_def as_ints_def right_def bottom_def area_def circle_a_def
        circle_b_def new_ROI_def Let_def)
  show "np_area NEP50 circle_a = Inr (U16 41616)"
    by (simp add: np_area_def arith_def circle_a_def new_ROI_def)
  show "np_area NEP50 circle_b = Inr (U16 41616)"
    by (simp add: np_area_def arith_def circle_b_def new_ROI_def)
  show "arith NEP50 (+) (U16 41616) (U16 41616) = Inr (U16 17696)"
    by (simp add: arith_def)
qed

section \<open>Merging overlapping regions\<close>

lemma should_merge_total_python_ints:
  assumes "python_ints r" and "list_all python_ints acc"
  shows "\<exists>b. should_merge rules rnd t r acc = Inr b"
  using assms(2)
proof (induction acc)
  case Nil
  have "should_merge rules rnd t r [] = Inr False" by simp
  then show ?case by blast
next
  case (Cons e acc)
  then have e: "python_ints e" and acc: "list_all python_ints acc" by simp_all
  obtain b where b: "should_merge rules rnd t r acc = Inr b" using Cons.IH [OF acc] by blast
  have "should_merge rules rnd t r (e # acc)
      = Inr (if box_iou rnd (as_ints r) (as_ints e) > t then True else b)"
    by (simp add: calculate_iou_python_ints [OF assms(1) e] b)
  then show ?case by blast
qed

lemma merge_loop_total_python_ints:
  assumes "list_all python_ints xs" and "list_all python_ints acc"
  shows "\<exists>R. merge_loop rules rnd t acc xs = Inr R"
  using assms
proof (induction xs arbitrary: acc)
  case Nil
  show ?case by simp
next
  case (Cons r rs)
  then have r: "python_ints r" and rs: "list_all python_ints rs" by simp_all
  obtain b where b: "should_merge rules rnd t r acc = Inr b"
    using should_merge_total_python_ints [OF r Cons.prems(2)] by blast
  have acc': "list_all python_ints (acc @ [r])" using Cons.prems(2) r by simp
  show ?case
  proof (cases b)
    case True
    then show ?thesis using Cons.IH [OF rs Cons.prems(2)] b by simp
  next
    case False
    then show ?thesis using Cons.IH [OF rs acc'] b by simp
  qed
qed

lemma np_area_python_ints:
  "python_ints r \<Longrightarrow> np_area rules r = Inr (Py (area (as_ints r)))"
  by (simp add: np_area_def python_ints_fields area_def)

lemma area_keys_Inr_iff:
  "(\<exists>ks. area_keys rules rs = Inr ks) \<longleftrightarrow> (\<forall>r \<in> set rs. \<exists>k. np_area rules r = Inr k)"
  by (induction rs) (auto split: sum.splits)

lemma sorted_rois_Inr:
  assumes "sorted_rois rules rois = Inr S"
  shows "S = rev (sort_key (key_value rules) (rev rois))"
    and "\<forall>r \<in> set rois. \<exists>k. np_area rules r = Inr k"
proof -
  obtain ks where ks: "area_keys rules rois = Inr ks"
    and S: "S = rev (sort_key (key_value rules) (rev rois))"
    using assms by (auto simp: sorted_rois_def bnd_eq_Inr)
  show "S = rev (sort_key (key_value rules) (rev rois))" by (rule S)
  show "\<forall>r \<in> set rois. \<exists>k. np_area rules r = Inr k"
    using ks area_keys_Inr_iff [of rules rois] by blast
qed

lemma sorted_rois_keys:
  assumes "\<forall>r \<in> set rois. \<exists>k. np_area rules r = Inr k"
  shows "sorted_rois rules rois = Inr (rev (sort_key (key_value rules) (rev rois)))"
proof -
  obtain ks where "area_keys rules rois = Inr ks"
    using assms area_keys_Inr_iff [of rules rois] by blast
  then show ?thesis by (simp add: sorted_rois_def)
qed

lemma sorted_desc:
  "sorted_wrt (\<lambda>a b. key a \<ge> key b) (rev (sort_key key (rev xs)))" for key :: "'a \<Rightarrow> int"
proof -
  have "sorted (map key (sort_key key (rev xs)))" by simp
  then have "sorted_wrt (\<lambda>a b. key a \<le> key b) (sort_key key (rev xs))"
    by (simp only: sorted_map)
  then show ?thesis by (simp add: sorted_wrt_rev)
qed

lemma sort_desc_id:
  fixes key :: "'a \<Rightarrow> int"
  assumes "sorted_wrt (\<lambda>a b. key a \<ge> key b) xs"
  shows "rev (sort_key key (rev xs)) = xs"
proof -
  have "sorted_wrt (\<lambda>a b. key a \<le> key b) (rev xs)"
    using assms by (simp add: sorted_wrt_rev)
  then have "sorted (map key (rev xs))" by (simp only: sorted_map)
  then have "sort_key key (rev xs) = rev xs" by (rule sort_key_id_if_sorted)
  then show ?thesis by simp
qed

lemma merge_loop_accepted:
  "accepted rules rnd t acc xs \<Longrightarrow> merge_loop rules rnd t acc xs = Inr (acc @ xs)"
  by (induction xs arbitrary: acc) auto

lemma merge_loop_shape:
  "merge_loop rules rnd t acc xs = Inr R \<Longrightarrow>
   \<exists>ys. R = acc @ ys \<and> accepted rules rnd t acc ys \<and> set ys \<subseteq> set xs"
proof (induction xs arbitrary: acc)
  case Nil
  then show ?case by simp
next
  case (Cons r rs)
  then obtain b where b: "should_merge rules rnd t r acc = Inr b"
    by (cases "should_merge rules rnd t r acc") simp_all
  show ?case
  proof (cases b)
    case True
    then have "merge_loop rules rnd t acc rs = Inr R" using Cons.prems b by simp
    then show ?thesis using Cons.IH [of acc] by auto
  next
    case False
    then have "merge_loop rules rnd t (acc @ [r]) rs = Inr R" using Cons.prems b by simp
    then obtain ys where ys: "R = (acc @ [r]) @ ys" "accepted rules rnd t (acc @ [r]) ys"
        "set ys \<subseteq> set rs"
      using Cons.IH [of "acc @ [r]"] by blast
    have "R = acc @ (r # ys) \<and> accepted rules rnd t acc (r # ys) \<and> set (r # ys) \<subseteq> set (r # rs)"
      using False b ys by auto
    then show ?thesis by blast
  qed
qed

lemma merge_loop_sorted:
  "merge_loop rules rnd t acc xs = Inr R \<Longrightarrow> sorted_wrt P (acc @ xs) \<Longrightarrow> sorted_wrt P R"
proof (induction xs arbitrary: acc)
  case Nil
  then show ?case by simp
next
  case (Cons r rs)
  then obtain b where b: "should_merge rules rnd t r acc = Inr b"
    by (cases "should_merge rules rnd t r acc") simp_all
  have s1: "sorted_wrt P (acc @ rs)" using Cons.prems(2) by (auto simp: sorted_wrt_append)
  have s2: "sorted_wrt P ((acc @ [r]) @ rs)" using Cons.prems(2) by simp
  show ?case
  proof (cases b)
    case True
    then have "merge_loop rules rnd t acc rs = Inr R" using Cons.prems(1) b by simp
    then show ?thesis using s1 by (rule Cons.IH)
  next
    case False
    then have "merge_loop rules rnd t (acc @ [r]) rs = Inr R" using Cons.prems(1) b by simp
    then show ?thesis using s2 by (rule Cons.IH)
  qed
qed

lemma merge_again:
  assumes "merge_overlapping_rois rules rnd rois t = Inr M"
  shows "merge_overlapping_rois rules rnd M t = Inr M"
proof (cases "rois = []")
  case True
  then have "M = []" using assms by (simp add: merge_overlapping_rois_def)
  then show ?thesis by (simp add: merge_overlapping_rois_def)
next
  case False
  then obtain S where S: "sorted_rois rules rois = Inr S"
    and M: "merge_loop rules rnd t [] S = Inr M"
    using assms by (auto simp: merge_overlapping_rois_def bnd_eq_Inr)
  have Sdef: "S = rev (sort_key (key_value rules) (rev rois))"
    and keys: "\<forall>r \<in> set rois. \<exists>k. np_area rules r = Inr k"
    using sorted_rois_Inr [OF S] by blast+
  obtain ys where ys: "M = [] @ ys" "accepted rules rnd t [] ys" "set ys \<subseteq> set S"
    using merge_loop_shape [OF M] by blast
  have "set M \<subseteq> set rois" using ys(1,3) by (simp add: Sdef)
  then have keysM: "\<forall>r \<in> set M. \<exists>k. np_area rules r = Inr k" using keys by blast
  have "sorted_wrt (\<lambda>a b. key_value rules a \<ge> key_value rules b) ([] @ S)"
    unfolding Sdef append_Nil by (rule sorted_desc)
  then have "sorted_wrt (\<lambda>a b. key_value rules a \<ge> key_value rules b) M"
    by (rule merge_loop_sorted [OF M])
  then have "rev (sort_key (key_value rules) (rev M)) = M" by (rule sort_desc_id)
  then have sM: "sorted_rois rules M = Inr M"
    using sorted_rois_keys [OF keysM] by simp
  have "merge_loop rules rnd t [] M = Inr M"
    using merge_loop_accepted [OF ys(2)] ys(1) by simp
  then show ?thesis by (simp add: merge_overlapping_rois_def sM)
qed

lemma merge_total_python_ints:
  assumes "list_all python_ints rois"
  shows "\<exists>M. merge_overlapping_rois rules rnd rois t = Inr M"
proof (cases "rois = []")
  case True
  then show ?thesis by (simp add: merge_overlapping_rois_def)
next
  case False
  have "\<forall>r \<in> set rois. \<exists>k. np_area rules r = Inr k"
    using assms np_area_python_ints by (auto simp: list_all_iff)
  then have s: "sorted_rois rules rois = Inr (rev (sort_key (key_value rules) (rev rois)))"
    by (rule sorted_rois_keys)
  have "list_all python_ints (rev (sort_key (key_value rules) (rev rois)))"
    using assms by (simp add: list_all_iff)
  then obtain R where "merge_loop rules rnd t [] (rev (sort_key (key_value rules) (rev rois))) = Inr R"
    using merge_loop_total_python_ints
      [of "rev (sort_key (key_value rules) (rev rois))" "[]" rules rnd t]
    by auto
  then show ?thesis using False by (simp add: merge_overlapping_rois_def s)
qed

text \<open>
  Claim C1 at two regions of \<open>detect_circles\<close>. On an image of 512 by 512 pixels and
  the circles of radius 100 around (150, 150) and (286, 218), \<open>detect_circles\<close> under
  NumPy 2 returns the boxes (48, 48, 204, 204) and (184, 116, 204, 204) with \<open>uint16\<close>
  coordinates. Their IoU is 1/8, so the greedy rule of the specification keeps both at
  the threshold 0.3; the merger computes an IoU of 289/264, because the sum of the
  areas wraps around, and drops the second region.
\<close>

theorem C1_merge_uint16_drops_region:
  "detect_circles NEP50 (\<lambda>img lo hi. Some two_circles) (\<lambda>i. ''c0'') blank512 5 100
     = Inr [circle_a, circle_b]
   \<and> merge_overlapping_rois NEP50 (\<lambda>q. q) [circle_a, circle_b] (3 / 10) = Inr [circle_a]
   \<and> by_area [as_ints circle_a, as_ints circle_b] = [as_ints circle_a, as_ints circle_b]
   \<and> kept_upto (box_iou (\<lambda>q. q)) (3 / 10) [as_ints circle_a, as_ints circle_b] 2
       = [as_ints circle_a, as_ints circle_b]"
proof (intro conjI)
  show "detect_circles NEP50 (\<lambda>img lo hi. Some two_circles) (\<lambda>i. ''c0'') blank512 5 100
     = Inr [circle_a, circle_b]"
    by (rule detect_two_circles)
  have k: "np_area NEP50 circle_a = Inr (U16 41616)" "np_area NEP50 circle_b = Inr (U16 41616)"
    by (simp_all add: np_area_def arith_def circle_a_def circle_b_def new_ROI_def)
  have s: "sorted_rois NEP50 [circle_a, circle_b] = Inr [circle_a, circle_b]"
    by (simp add: sorted_rois_def key_value_def k)
  have i: "calculate_iou NEP50 (\<lambda>q. q) circle_b circle_a = Inr (289 / 264)"
    by (simp add: calculate_iou_def np_right_def np_bottom_def np_area_def arith_def
        true_divide_def py_max_def py_min_def circle_a_def circle_b_def new_ROI_def Let_def)
  have ne: "[circle_a, circle_b] \<noteq> []" by simp
  show "merge_overlapping_rois NEP50 (\<lambda>q. q) [circle_a, circle_b] (3 / 10) = Inr [circle_a]"
    unfolding merge_overlapping_rois_def using ne by (simp add: s i)
  have a: "area (as_ints circle_a) = 41616" "area (as_ints circle_b) = 41616"
    by (simp_all add: area_def as_ints_def circle_a_def circle_b_def new_ROI_def)
  show "by_area [as_ints circle_a, as_ints circle_b] = [as_ints circle_a, as_ints circle_b]"
    by (simp add: by_area_def a)
  have b: "box_iou (\<lambda>q. q) (as_ints circle_b) (as_ints circle_a) = 1 / 8"
    by (simp add: box_iou_def as_ints_def right_def bottom_def area_def circle_a_def
        circle_b_def new_ROI_def Let_def)
  have two: "(2::nat) = Suc (Suc 0)" by simp
  show "kept_upto (box_iou (\<lambda>q. q)) (3 / 10) [as_ints circle_a, as_ints circle_b] 2
       = [as_ints circle_a, as_ints circle_b]"
    unfolding two by (simp add: b)
qed

text \<open>
  Claim C4. Merging is idempotent: merging the result of a merge again, at the same
  threshold, returns that result, element by element in the same order; and when the
  first merge raises, so does the pair of merges, with the same exception. On regions
  whose coordinates are Python ints no merge raises.
\<close>

theorem C4_merge_idempotent:
  "bnd (merge_overlapping_rois rules rnd rois t)
       (\<lambda>merged. merge_overlapping_rois rules rnd merged t)
     = merge_overlapping_rois rules rnd rois t
   \<and> (list_all python_ints rois \<longrightarrow>
        (\<exists>merged. merge_overlapping_rois rules rnd rois t = Inr merged
                 \<and> merge_overlapping_rois rules rnd merged t = Inr merged))"
proof (intro conjI impI)
  show "bnd (merge_overlapping_rois rules rnd rois t)
       (\<lambda>merged. merge_overlapping_rois rules rnd merged t)
     = merge_overlapping_rois rules rnd rois t"
  proof (cases "merge_overlapping_rois rules rnd rois t")
    case (Inl e)
    then show ?thesis by simp
  next
    case (Inr M)
    then show ?thesis using merge_again [OF Inr] by simp
  qed
next
  assume "list_all python_ints rois"
  then obtain M where M: "merge_overlapping_rois rules rnd rois t = Inr M"
    using merge_total_python_ints by blast
  then show "\<exists>merged. merge_overlapping_rois rules rnd rois t = Inr merged
                 \<and> merge_overlapping_rois rules rnd merged t = Inr merged"
    using merge_again [OF M] by blast
qed

theorem C4_merge_idempotent_witness:
  "list_all python_ints
     [new_ROI ''a'' (Py 0) (Py 0) (Py 10) (Py 10), new_ROI ''b'' (Py 1) (Py 1) (Py 10) (Py 10),
      new_ROI ''c'' (Py 50) (Py 50) (Py 20) (Py 20)]
   \<and> merge_overlapping_rois NEP50 (\<lambda>q. q)
       [new_ROI ''a'' (Py 0) (Py 0) (Py 10) (Py 10), new_ROI ''b'' (Py 1) (Py 1) (Py 10) (Py 10),
        new_ROI ''c'' (Py 50) (Py 50) (Py 20) (Py 20)] (3 / 10)
     = Inr [new_ROI ''c'' (Py 50) (Py 50) (Py 20) (Py 20), new_ROI ''a'' (Py 0) (Py 0) (Py 10) (Py 10)]
   \<and> merge_overlapping_rois NEP50 (\<lambda>q. q)
       [new_ROI ''c'' (Py 50) (Py 50) (Py 20) (Py 20), new_ROI ''a'' (Py 0) (Py 0) (Py 10) (Py 10)]
       (3 / 10)
     = Inr [new_ROI ''c'' (Py 50) (Py 50) (Py 20) (Py 20), new_ROI ''a'' (Py 0) (Py 0) (Py 10) (Py 10)]"
proof -
  let ?a = "new_ROI ''a'' (Py 0) (Py 0) (Py 10) (Py 10)"
  let ?b = "new_ROI ''b'' (Py 1) (Py 1) (Py 10) (Py 10)"
  let ?c = "new_ROI ''c'' (Py 50) (Py 50) (Py 20) (Py 20)"
  have p: "list_all python_ints [?a, ?b, ?c]"
    by (simp add: python_ints_def new_ROI_def)
  have k: "key_value NEP50 ?a = 100" "key_value NEP50 ?b = 100" "key_value NEP50 ?c = 400"
    by (simp_all add: key_value_def np_area_def new_ROI_def)
  have ks: "area_keys NEP50 [?a, ?b, ?c] = Inr [Py 100, Py 100, Py 400]"
    by (simp add: np_area_def new_ROI_def)
  have s: "sorted_rois NEP50 [?a, ?b, ?c] = Inr [?c, ?a, ?b]"
    unfolding sorted_rois_def ks by (simp add: k)
  have i: "calculate_iou NEP50 (\<lambda>q. q) ?a ?c = Inr 0"
      "calculate_iou NEP50 (\<lambda>q. q) ?b ?c = Inr 0"
      "calculate_iou NEP50 (\<lambda>q. q) ?b ?a = Inr (81 / 119)"
    by (simp_all add: calculate_iou_def np_right_def np_bottom_def np_area_def new_ROI_def Let_def)
  have ne: "[?a, ?b, ?c] \<noteq> []" by simp
  have m: "merge_overlapping_rois NEP50 (\<lambda>q. q) [?a, ?b, ?c] (3 / 10) = Inr [?c, ?a]"
    unfolding merge_overlapping_rois_def using ne by (simp add: s i)
  obtain merged where
    e: "merge_overlapping_rois NEP50 (\<lambda>q. q) [?a, ?b, ?c] (3 / 10) = Inr merged"
    and f: "merge_overlapping_rois NEP50 (\<lambda>q. q) merged (3 / 10) = Inr merged"
    using C4_merge_idempotent [of NEP50 "\<lambda>q. q" "[?a, ?b, ?c]" "3 / 10", THEN conjunct2,
        THEN mp, OF p]
    by blast
  have "merged = [?c, ?a]" using e unfolding m by simp
  then have "merge_overlapping_rois NEP50 (\<lambda>q. q) [?c, ?a] (3 / 10) = Inr [?c, ?a]"
    using f by simp
  then show ?thesis using p m by (intro conjI)
qed

section \<open>Serialisation of a region\<close>

lemma to_dict_eq:
  "to_dict r =
     [(''id'', PyStr (roi_id r)),
      (''name'', PyStr (roi_name r)),
      (''node_name'', PyStr (node_name r)),
      (''roi_type'', PyStr (roi_type r)),
      (''x'', PyInt (roi_x r)),
      (''y'', PyInt (roi_y r)),
      (''width'', PyInt (roi_width r)),
      (''height'', PyInt (roi_height r)),
      (''center'', PyTuple (roi_x r + roi_width r div 2) (roi_y r + roi_height r div 2))] @
     (if roi_type r = ''image''
      then [(''image_name'', PyStr (image_name r)), (''image_action'', PyStr (image_action r))]
      else (''action'', PyStr (action r)) #
           (if action r = ''click''
            then [(''click_mode'', PyStr (click_mode r)),
                  (''click_count'', PyInt (click_count r)),
                  (''click_interval'', PyInt (click_interval r))]
            else if action r = ''swipe''
            then [(''swipe_direction'', PyStr (swipe_direction r)),
                  (''swipe_speed'', PyInt (swipe_speed r))]
            else []))"
  by (simp add: to_dict_def Let_def center_def)

text \<open>
  Claim C8, as the specification states it, fails: for a region of type \<open>region\<close> with
  the action \<open>click\<close> the schema names the key \<open>click_interval_ms\<close>, and the dict has
  the key \<open>click_interval\<close> instead.
\<close>

theorem C8_schema_counterexample:
  "set (map fst (to_dict ((new_ROI ''ab12'' 1 2 30 41)\<lparr>roi_type := ''region'', action := ''click''\<rparr>)))
   \<noteq> set (schema_keys ((new_ROI ''ab12'' 1 2 30 41)\<lparr>roi_type := ''region'', action := ''click''\<rparr>))"
proof -
  let ?R = "(new_ROI ''ab12'' 1 2 30 41)\<lparr>roi_type := ''region'', action := ''click''\<rparr>"
  have a: "''click_interval_ms'' \<in> set (schema_keys ?R)"
    by (simp add: schema_keys_def new_ROI_def)
  have b: "''click_interval_ms'' \<notin> set (map fst (to_dict ?R))"
    by (simp add: to_dict_def new_ROI_def)
  show ?thesis using a b by blast
qed

text \<open>
  Claim C8, amended. \<open>to_dict\<close> yields, in this order and with the values of the
  fields: the base keys \<open>id\<close>, \<open>name\<close>, \<open>node_name\<close>, \<open>roi_type\<close>, \<open>x\<close>, \<open>y\<close>,
  \<open>width\<close>, \<open>height\<close>, \<open>center\<close>; for \<open>roi_type = image\<close> then \<open>image_name\<close> and
  \<open>image_action\<close>; for any other type \<open>action\<close>, followed for the action \<open>click\<close> by
  \<open>click_mode\<close>, \<open>click_count\<close>, \<open>click_interval\<close> and for the action \<open>swipe\<close> by
  \<open>swipe_direction\<close>, \<open>swipe_speed\<close>. No key occurs twice.
\<close>

theorem C8_to_dict_schema:
  "to_dict r =
     [(''id'', PyStr (roi_id r)),
      (''name'', PyStr (roi_name r)),
      (''node_name'', PyStr (node_name r)),
      (''roi_type'', PyStr (roi_type r)),
      (''x'', PyInt (roi_x r)),
      (''y'', PyInt (roi_y r)),
      (''width'', PyInt (roi_width r)),
      (''height'', PyInt (roi_height r)),
      (''center'', PyTuple (roi_x r + roi_width r div 2) (roi_y r + roi_height r div 2))] @
     (if roi_type r = ''image''
      then [(''image_name'', PyStr (image_name r)), (''image_action'', PyStr (image_action r))]
      else (''action'', PyStr (action r)) #
           (if action r = ''click''
            then [(''click_mode'', PyStr (click_mode r)),
                  (''click_count'', PyInt (click_count r)),
                  (''click_interval'', PyInt (click_interval r))]
            else if action r = ''swipe''
            then [(''swipe_direction'', PyStr (swipe_direction r)),
                  (''swipe_speed'', PyInt (swipe_speed r))]
            else []))
   \<and> distinct (map fst (to_dict r))"
proof (rule conjI)
  show "distinct (map fst (to_dict r))"
    by (simp add: to_dict_def Let_def)
qed (rule to_dict_eq)

theorem C8_to_dict_schema_witness:
  "to_dict ((new_ROI ''ab12'' 1 2 30 41)\<lparr>roi_type := ''region'', action := ''swipe''\<rparr>) =
     [(''id'', PyStr ''ab12''), (''name'', PyStr ''''), (''node_name'', PyStr ''''),
      (''roi_type'', PyStr ''region''), (''x'', PyInt 1), (''y'', PyInt 2),
      (''width'', PyInt 30), (''height'', PyInt 41), (''center'', PyTuple 16 22),
      (''action'', PyStr ''swipe''), (''swipe_direction'', PyStr ''top_to_bottom''),
      (''swipe_speed'', PyInt 400)]"
  using C8_to_dict_schema [of "(new_ROI ''ab12'' 1 2 30 41)\<lparr>roi_type := ''region'', action := ''swipe''\<rparr>"]
  by (simp add: new_ROI_def)

section \<open>The selection of a collection\<close>

lemma valid_add: "valid_selection c \<Longrightarrow> valid_selection (fst (add c roi))"
  by (auto simp: valid_selection_def add_def Let_def)

lemma valid_remove: "valid_selection c \<Longrightarrow> valid_selection (fst (remove c i))"
  by (auto simp: valid_selection_def remove_def Let_def)

lemma valid_remove_selected: "valid_selection c \<Longrightarrow> valid_selection (fst (remove_selected c))"
  by (simp add: remove_selected_def valid_remove)

lemma valid_select: "valid_selection (select c i)"
  by (auto simp: valid_selection_def select_def)

lemma first_containing_range:
  "first_containing contains p i rs = -1 \<or>
   (i \<le> first_containing contains p i rs \<and> first_containing contains p i rs < i + int (length rs))"
proof (induction rs arbitrary: i)
  case Nil
  show ?case by simp
next
  case (Cons r rs)
  show ?case using Cons.IH [of "i + 1"] by auto
qed

lemma valid_select_by_point: "valid_selection (fst (select_by_point contains c p))"
  using first_containing_range [of contains p 0 "c_rois c"]
  by (auto simp: valid_selection_def select_by_point_def Let_def)

lemma valid_copy_selected: "valid_selection c \<Longrightarrow> valid_selection (fst (copy_selected ident c))"
  by (auto simp: valid_selection_def copy_selected_def add_def Let_def split: option.splits)

lemma valid_clear: "valid_selection (clear c)"
  by (simp add: valid_selection_def clear_def)

lemma remove_index:
  assumes "0 \<le> i" "i < int (length (c_rois c))"
  shows "selected_index (fst (remove c i)) =
     (if selected_index c = i then -1
      else if selected_index c > i then selected_index c - 1 else selected_index c)"
  using assms by (simp add: remove_def Let_def)

lemma nth_del_above:
  assumes "i < j" "j < length xs"
  shows "(take i xs @ drop (Suc i) xs) ! (j - 1) = xs ! j"
proof -
  have n: "\<not> j - 1 < i" using assms by simp
  have "(take i xs @ drop (Suc i) xs) ! (j - 1) = drop (Suc i) xs ! (j - 1 - i)"
    using n assms by (simp add: nth_append min_def)
  also have "\<dots> = xs ! (Suc i + (j - 1 - i))" using assms by simp
  also have "Suc i + (j - 1 - i) = j" using assms by simp
  finally show ?thesis .
qed

lemma nth_del_below:
  "j < i \<Longrightarrow> i < length xs \<Longrightarrow> (take i xs @ drop (Suc i) xs) ! j = xs ! j"
  by (simp add: nth_append)

lemma remove_keeps_selected:
  assumes "0 \<le> i" "i < int (length (c_rois c))" "selected_index c \<noteq> i"
  shows "get_selected (fst (remove c i)) = get_selected c"
proof -
  let ?s = "selected_index c"
  consider "?s < 0" | "0 \<le> ?s" "?s < i" | "i < ?s" "?s < int (length (c_rois c))"
    | "int (length (c_rois c)) \<le> ?s"
    using assms(3) by linarith
  then show ?thesis
  proof cases
    case 1
    then show ?thesis using assms by (simp add: get_selected_def get_def remove_def Let_def)
  next
    case 2
    then have "nat ?s < nat i" "nat i < length (c_rois c)" using assms by linarith+
    then have "(take (nat i) (c_rois c) @ drop (Suc (nat i)) (c_rois c)) ! nat ?s = c_rois c ! nat ?s"
      by (rule nth_del_below)
    then show ?thesis using assms 2
      by (auto simp: get_selected_def get_def remove_def Let_def)
  next
    case 3
    then have "nat i < nat ?s" "nat ?s < length (c_rois c)" using assms by linarith+
    then have "(take (nat i) (c_rois c) @ drop (Suc (nat i)) (c_rois c)) ! (nat ?s - 1) = c_rois c ! nat ?s"
      by (rule nth_del_above)
    moreover have "nat (?s - 1) = nat ?s - 1" by simp
    ultimately show ?thesis using assms 3
      by (auto simp: get_selected_def get_def remove_def Let_def)
  next
    case 4
    then show ?thesis using assms
      by (auto simp: get_selected_def get_def remove_def Let_def)
  qed
qed

text \<open>
  Claim C10. If the selected index of a collection is -1 or a valid index, it is so
  again after \<open>add\<close>, \<open>remove\<close>, \<open>remove_selected\<close>, \<open>select\<close>, \<open>select_by_point\<close>,
  \<open>copy_selected\<close> and \<open>clear\<close>. Removing the region at a valid index \<open>i\<close> decrements
  a selected index above \<open>i\<close>, sets a selected index equal to \<open>i\<close> to -1 and leaves one
  below \<open>i\<close> alone; unless the selected region itself is removed, the same region is
  selected afterwards.
\<close>

theorem C10_selection_invariant:
  assumes "valid_selection c"
  shows "valid_selection (fst (add c roi))
       \<and> valid_selection (fst (remove c i))
       \<and> valid_selection (fst (remove_selected c))
       \<and> valid_selection (select c i)
       \<and> valid_selection (fst (select_by_point contains c p))
       \<and> valid_selection (fst (copy_selected ident c))
       \<and> valid_selection (clear c)
       \<and> (0 \<le> i \<and> i < int (length (c_rois c)) \<longrightarrow>
            (selected_index c > i \<longrightarrow> selected_index (fst (remove c i)) = selected_index c - 1)
          \<and> (selected_index c = i \<longrightarrow> selected_index (fst (remove c i)) = -1)
          \<and> (selected_index c < i \<longrightarrow> selected_index (fst (remove c i)) = selected_index c)
          \<and> (selected_index c \<noteq> i \<longrightarrow> get_selected (fst (remove c i)) = get_selected c))"
proof -
  have r: "0 \<le> i \<and> i < int (length (c_rois c)) \<longrightarrow>
            (selected_index c > i \<longrightarrow> selected_index (fst (remove c i)) = selected_index c - 1)
          \<and> (selected_index c = i \<longrightarrow> selected_index (fst (remove c i)) = -1)
          \<and> (selected_index c < i \<longrightarrow> selected_index (fst (remove c i)) = selected_index c)
          \<and> (selected_index c \<noteq> i \<longrightarrow> get_selected (fst (remove c i)) = get_selected c)"
    using remove_index [of i c] remove_keeps_selected [of i c] by auto
  show ?thesis
    by (intro conjI valid_add valid_remove valid_remove_selected valid_select
        valid_select_by_point valid_copy_selected valid_clear assms r)
qed

theorem C10_selection_invariant_witness:
  "valid_selection \<lparr>c_rois = [new_ROI ''a'' 0 0 10 10, new_ROI ''b'' 20 20 5 5],
                     selected_index = 1, name_counter = 0\<rparr>
   \<and> selected_index (fst (remove \<lparr>c_rois = [new_ROI ''a'' 0 0 10 10, new_ROI ''b'' 20 20 5 5],
                     selected_index = 1, name_counter = 0\<rparr> 0)) = 0
   \<and> get_selected (fst (remove \<lparr>c_rois = [new_ROI ''a'' 0 0 10 10, new_ROI ''b'' 20 20 5 5],
                     selected_index = 1, name_counter = 0\<rparr> 0)) = Some (new_ROI ''b'' 20 20 5 5)
   \<and> valid_selection (fst (remove \<lparr>c_rois = [new_ROI ''a'' 0 0 10 10, new_ROI ''b'' 20 20 5 5],
                     selected_index = 1, name_counter = 0\<rparr> 0))"
proof -
  let ?C = "\<lparr>c_rois = [new_ROI ''a'' 0 0 10 10, new_ROI ''b'' 20 20 5 5],
                     selected_index = 1, name_counter = 0\<rparr>"
  have v: "valid_selection ?C" by (simp add: valid_selection_def)
  have g: "get_selected ?C = Some (new_ROI ''b'' 20 20 5 5)"
    by (simp add: get_selected_def get_def)
  note t = C10_selection_invariant [OF v, of "new_ROI ''c'' 1 1 1 1" 0
      "\<lambda>r q. roi_x r \<le> fst q \<and> fst q < right r \<and> roi_y r \<le> snd q \<and> snd q < bottom r"
      "(0::int, 0::int)" "''d''"]
  note w = t [THEN conjunct2, THEN conjunct1]
  have pre: "0 \<le> (0::int) \<and> 0 < int (length (c_rois ?C))" by simp
  note u = t [THEN conjunct2, THEN conjunct2, THEN conjunct2, THEN conjunct2,
      THEN conjunct2, THEN conjunct2, THEN conjunct2, THEN mp, OF pre]
  have above: "selected_index ?C > 0" and other: "selected_index ?C \<noteq> 0" by simp_all
  have "selected_index (fst (remove ?C 0)) = selected_index ?C - 1"
    by (rule u [THEN conjunct1, THEN mp, OF above])
  then have s: "selected_index (fst (remove ?C 0)) = 0" by simp
  have "get_selected (fst (remove ?C 0)) = get_selected ?C"
    by (rule u [THEN conjunct2, THEN conjunct2, THEN conjunct2, THEN mp, OF other])
  then have k: "get_selected (fst (remove ?C 0)) = Some (new_ROI ''b'' 20 20 5 5)"
    using g by simp
  show ?thesis using v s k w by (intro conjI)
qed

section \<open>The colour flood with all components merged\<close>

lemma Min_insert_min:
  "finite S \<Longrightarrow> Min (insert (min a b) S) = Min (insert a (insert b S))" for a b :: int
  by (cases "S = {}") (simp_all add: min.assoc)

lemma Max_insert_max:
  "finite S \<Longrightarrow> Max (insert (max a b) S) = Max (insert a (insert b S))" for a b :: int
  by (cases "S = {}") (simp_all add: max.assoc)

lemma merge_all_loop_eq:
  "merge_all_loop rows (ax1, ay1, ax2, ay2, tot, cnt) =
     (let Q = filter (\<lambda>row. row_area row \<ge> 20) rows
      in (Min (insert ax1 (set (map row_left Q))),
          Min (insert ay1 (set (map row_top Q))),
          Max (insert ax2 (set (map row_right Q))),
          Max (insert ay2 (set (map row_bottom Q))),
          tot + sum_list (map row_area Q),
          cnt + int (length Q)))"
proof (induction rows arbitrary: ax1 ay1 ax2 ay2 tot cnt)
  case Nil
  show ?case by simp
next
  case (Cons row rows)
  obtain x1 y1 w1 h1 a where row: "row = (x1, y1, w1, h1, a)" by (cases row) auto
  show ?case
  proof (cases "a < 20")
    case True
    then show ?thesis using Cons.IH [of ax1 ay1 ax2 ay2 tot cnt] by (simp add: row)
  next
    case False
    then show ?thesis
      using Cons.IH [of "min ax1 x1" "min ay1 y1" "max ax2 (x1 + w1)" "max ay2 (y1 + h1)"
          "tot + a" "cnt + 1"]
      by (simp add: row Let_def Min_insert_min Max_insert_max insert_commute)
  qed
qed

lemma Min_insert_le:
  fixes a :: int
  assumes "finite S" "S \<noteq> {}" "\<forall>v \<in> S. v \<le> a"
  shows "Min (insert a S) = Min S"
proof -
  have le: "Min S \<le> a" using assms by (meson Min_in Min_le order_trans)
  have "Min (insert a S) = min a (Min S)" using assms(1,2) by (rule Min_insert)
  then show ?thesis using le by simp
qed

lemma Max_insert_ge:
  fixes a :: int
  assumes "finite S" "S \<noteq> {}" "\<forall>v \<in> S. a \<le> v"
  shows "Max (insert a S) = Max S"
proof -
  have le: "a \<le> Max S" using assms by (meson Max_in Max_ge order_trans)
  have "Max (insert a S) = max a (Max S)" using assms(1,2) by (rule Max_insert)
  then show ?thesis using le by simp
qed

lemma merge_all_loop_union:
  assumes "rows_in_image w h (filter (\<lambda>row. row_area row \<ge> 20) rows)"
    and "filter (\<lambda>row. row_area row \<ge> 20) rows \<noteq> []"
  shows "merge_all_loop rows (w, h, 0, 0, 0, 0) =
     (case union_box (filter (\<lambda>row. row_area row \<ge> 20) rows) of
        (bx, by, bw, bh) \<Rightarrow>
          (bx, by, bx + bw, by + bh,
           sum_list (map row_area (filter (\<lambda>row. row_area row \<ge> 20) rows)),
           int (length (filter (\<lambda>row. row_area row \<ge> 20) rows))))"
proof -
  define Q where "Q = filter (\<lambda>row. row_area row \<ge> 20) rows"
  have ne: "Q \<noteq> []" using assms(2) by (simp add: Q_def)
  have inb: "\<forall>row \<in> set Q. 0 \<le> row_left row \<and> 0 \<le> row_top row \<and> row_left row < row_right row \<and>
        row_top row < row_bottom row \<and> row_right row \<le> w \<and> row_bottom row \<le> h"
    using assms(1) by (simp add: rows_in_image_def Q_def)
  have l: "Min (insert w (set (map row_left Q))) = Min (set (map row_left Q))"
    by (rule Min_insert_le) (use ne inb in force)+
  have t: "Min (insert h (set (map row_top Q))) = Min (set (map row_top Q))"
    by (rule Min_insert_le) (use ne inb in force)+
  have r: "Max (insert 0 (set (map row_right Q))) = Max (set (map row_right Q))"
    by (rule Max_insert_ge) (use ne inb in force)+
  have b: "Max (insert 0 (set (map row_bottom Q))) = Max (set (map row_bottom Q))"
    by (rule Max_insert_ge) (use ne inb in force)+
  show ?thesis
    unfolding merge_all_loop_eq Q_def [symmetric] Let_def l t r b
    by (simp add: union_box_def Let_def)
qed

lemma merge_all_loop_none:
  assumes "filter (\<lambda>row. row_area row \<ge> 20) rows = []"
  shows "merge_all_loop rows (w, h, 0, 0, 0, 0) = (w, h, 0, 0, 0, 0)"
  unfolding merge_all_loop_eq assms by simp

text \<open>
  Claim C7, as the specification states it, fails in its last part: on the image with
  two red rectangles of 20 pixels each, seeded in one of them, the region returned for
  \<open>merge_all\<close> has the union box of the two, and its area is the 210 pixels of
  that box, not the 40 pixels of the components.
\<close>

theorem C7_merge_all_area_counterexample:
  "detect_at_point (\<lambda>img x y tol. (two_rects_labels, two_rects_stats)) ''m0'' two_rects 3 3 30 True
     = Inr (Some ((new_ROI ''m0'' 2 2 15 14)\<lparr>roi_name := ''color_merged''\<rparr>))
   \<and> area ((new_ROI ''m0'' 2 2 15 14)\<lparr>roi_name := ''color_merged''\<rparr>) = 210
   \<and> member_area two_rects_stats = 40"
proof (intro conjI)
  show "detect_at_point (\<lambda>img x y tol. (two_rects_labels, two_rects_stats)) ''m0'' two_rects 3 3 30 True
     = Inr (Some ((new_ROI ''m0'' 2 2 15 14)\<lparr>roi_name := ''color_merged''\<rparr>))"
    by (simp add: detect_at_point_def qpixmap_to_cv2_def bytes_per_line_def rgb_to_bgr_def
        two_rects_def shape_def Let_def two_rects_stats_def)
  show "area ((new_ROI ''m0'' 2 2 15 14)\<lparr>roi_name := ''color_merged''\<rparr>) = 210"
    by (simp add: area_def new_ROI_def)
  show "member_area two_rects_stats = 40"
    by (simp add: member_area_def qualifying_def two_rects_stats_def)
qed

text \<open>
  Claim C7, amended. On a pixmap that \<open>_qpixmap_to_cv2\<close> converts (one that is not
  null and whose width is a multiple of 4), whose components of at least 20 pixels
  lie in the image: when there is no such component besides the background,
  \<open>detect_at_point\<close> with \<open>merge_all\<close> returns \<open>None\<close>; otherwise it returns a region
  whose box is the union of the boxes of these components, and the area of the region
  is the width times the height of that box.
\<close>

theorem C7_merge_all_union_box:
  assumes img: "qpixmap_to_cv2 pixmap = Inr (Some img)"
    and stats: "stats = snd (components img (max 0 (min x (snd (shape img) - 1)))
                                        (max 0 (min y (fst (shape img) - 1))) color_tolerance)"
    and inb: "rows_in_image (snd (shape img)) (fst (shape img)) (qualifying stats)"
  shows "(qualifying stats = [] \<longrightarrow>
            detect_at_point components ident pixmap x y color_tolerance True = Inr None)
       \<and> (qualifying stats \<noteq> [] \<longrightarrow>
            (case union_box (qualifying stats) of
               (bx, by, bw, bh) \<Rightarrow>
                 detect_at_point components ident pixmap x y color_tolerance True
                   = Inr (Some ((new_ROI ident bx by bw bh)\<lparr>roi_name := ''color_merged''\<rparr>))
                 \<and> area ((new_ROI ident bx by bw bh)\<lparr>roi_name := ''color_merged''\<rparr>) = bw * bh))"
proof (intro conjI impI)
  assume q: "qualifying stats = []"
  then have "merge_all_loop (tl stats) (snd (shape img), fst (shape img), 0, 0, 0, 0)
      = (snd (shape img), fst (shape img), 0, 0, 0, 0)"
    unfolding qualifying_def by (rule merge_all_loop_none)
  then show "detect_at_point components ident pixmap x y color_tolerance True = Inr None"
    using img stats by (simp add: detect_at_point_def Let_def)
next
  assume q: "qualifying stats \<noteq> []"
  obtain bx "by" bw bh where u: "union_box (qualifying stats) = (bx, by, bw, bh)"
    by (cases "union_box (qualifying stats)") auto
  have m: "merge_all_loop (tl stats) (snd (shape img), fst (shape img), 0, 0, 0, 0)
      = (bx, by, bx + bw, by + bh, member_area stats, int (length (qualifying stats)))"
    using merge_all_loop_union [of "snd (shape img)" "fst (shape img)" "tl stats"] inb q u
    by (simp add: qualifying_def member_area_def)
  have n: "\<not> length stats < 2"
  proof
    assume "length stats < 2"
    then have "tl stats = []" by (cases stats) auto
    then show False using q by (simp add: qualifying_def)
  qed
  have l: "int (length (qualifying stats)) \<noteq> 0" using q by simp
  have d: "detect_at_point components ident pixmap x y color_tolerance True
        = Inr (Some ((new_ROI ident bx by bw bh)\<lparr>roi_name := ''color_merged''\<rparr>))"
    using img stats [symmetric] n l by (simp add: detect_at_point_def Let_def m)
  have a: "area ((new_ROI ident bx by bw bh)\<lparr>roi_name := ''color_merged''\<rparr>) = bw * bh"
    by (simp add: area_def new_ROI_def)
  show "case union_box (qualifying stats) of
               (bx, by, bw, bh) \<Rightarrow>
                 detect_at_point components ident pixmap x y color_tolerance True
                   = Inr (Some ((new_ROI ident bx by bw bh)\<lparr>roi_name := ''color_merged''\<rparr>))
                 \<and> area ((new_ROI ident bx by bw bh)\<lparr>roi_name := ''color_merged''\<rparr>) = bw * bh"
    unfolding u using d a by simp
qed

theorem C7_merge_all_union_box_witness:
  "qpixmap_to_cv2 two_rects = Inr (Some (rgb_to_bgr (pm_image two_rects)))
   \<and> rows_in_image 20 20 (qualifying two_rects_stats)
   \<and> union_box (qualifying two_rects_stats) = (2, 2, 15, 14)
   \<and> detect_at_point (\<lambda>img x y tol. (two_rects_labels, two_rects_stats)) ''m1'' two_rects 3 3 30 True
       = Inr (Some ((new_ROI ''m1'' 2 2 15 14)\<lparr>roi_name := ''color_merged''\<rparr>))"
proof -
  let ?img = "rgb_to_bgr (pm_image two_rects)"
  let ?C = "\<lambda>(img :: image) (x :: int) (y :: int) (tol :: int). (two_rects_labels, two_rects_stats)"
  have "\<not> isNull two_rects" "pm_width two_rects = 20" "pm_height two_rects = 20"
    by (simp_all add: two_rects_def Let_def)
  then have i: "qpixmap_to_cv2 two_rects = Inr (Some ?img)"
    by (simp add: qpixmap_to_cv2_def bytes_per_line_def)
  have sh: "shape ?img = (20, 20)"
    by (simp add: rgb_to_bgr_def two_rects_def shape_def Let_def)
  have st: "two_rects_stats = snd (?C ?img (max 0 (min 3 (snd (shape ?img) - 1)))
                                        (max 0 (min 3 (fst (shape ?img) - 1))) 30)"
    by simp
  have rb: "rows_in_image 20 20 (qualifying two_rects_stats)"
    by (simp add: rows_in_image_def qualifying_def two_rects_stats_def)
  have rb': "rows_in_image (snd (shape ?img)) (fst (shape ?img)) (qualifying two_rects_stats)"
    unfolding sh using rb by simp
  have ub: "union_box (qualifying two_rects_stats) = (2, 2, 15, 14)"
    by (simp add: union_box_def qualifying_def two_rects_stats_def Let_def)
  have q: "qualifying two_rects_stats \<noteq> []"
    by (simp add: qualifying_def two_rects_stats_def)
  note t = C7_merge_all_union_box [OF i st rb', of "''m1''", THEN conjunct2, THEN mp, OF q]
  have "detect_at_point ?C ''m1'' two_rects 3 3 30 True
       = Inr (Some ((new_ROI ''m1'' 2 2 15 14)\<lparr>roi_name := ''color_merged''\<rparr>))"
    using t unfolding ub by simp
  then show ?thesis using i rb ub by (intro conjI)
qed

section \<open>Null buffers and empty results\<close>

text \<open>A pixmap that is not null and has at least one row is converted exactly when
  its width is a multiple of 4; otherwise \<open>_qpixmap_to_cv2\<close> raises \<open>ValueError\<close>, and so
  does every operation that starts with it.\<close>

lemma qpixmap_to_cv2_cases:
  assumes "\<not> isNull pixmap" and "0 < pm_height pixmap"
  shows "qpixmap_to_cv2 pixmap =
     (if pm_width pixmap mod 4 = 0 then Inr (Some (rgb_to_bgr (pm_image pixmap)))
      else Inl ValueError)"
proof -
  have "bytes_per_line (pm_width pixmap) = pm_width pixmap * 3 \<longleftrightarrow> pm_width pixmap mod 4 = 0"
    unfolding bytes_per_line_def by presburger
  then show ?thesis using assms by (simp add: qpixmap_to_cv2_def Let_def mult.commute)
qed





section \<open>The box of a detected circle\<close>

text \<open>
  Claim C5 at a circle that the left edge of the image cuts: a pixmap of 64 by 64
  pixels and the circle of radius 10 around (5, 32). The subtraction
  \<open>center_x - radius\<close> wraps around in \<open>uint16\<close>, and under either rule of NumPy the
  box starts at x = 65529, outside the image; before NumPy 2 its width is negative
  as well. The coordinates of the region are NumPy scalars, \<open>int64\<close> before NumPy 2
  and \<open>uint16\<close> from NumPy 2 on, not Python ints.
\<close>

theorem C5_detect_circles_wraps:
  "detect_circles Legacy (\<lambda>img lo hi. Some [(5, 32, 10)]) (\<lambda>i. ''c0'')
       \<lparr>isNull = False, pm_width = 64, pm_height = 64,
        pm_image = replicate 64 (replicate 64 (255, 255, 255))\<rparr> 5 100
     = Inr [(new_ROI ''c0'' (I64 65529) (I64 20) (I64 (- 65465)) (I64 24))\<lparr>roi_name := ''circle_01''\<rparr>]
   \<and> detect_circles NEP50 (\<lambda>img lo hi. Some [(5, 32, 10)]) (\<lambda>i. ''c0'')
       \<lparr>isNull = False, pm_width = 64, pm_height = 64,
        pm_image = replicate 64 (replicate 64 (255, 255, 255))\<rparr> 5 100
     = Inr [(new_ROI ''c0'' (U16 65529) (U16 20) (U16 24) (U16 24))\<lparr>roi_name := ''circle_01''\<rparr>]
   \<and> val (I64 65529) = 65529 \<and> val (I64 20) = 20 \<and> val (I64 (- 65465)) = - 65465
   \<and> val (I64 24) = 24 \<and> val (U16 65529) = 65529 \<and> val (U16 20) = 20 \<and> val (U16 24) = 24
   \<and> \<not> within_image \<lparr>isNull = False, pm_width = 64, pm_height = 64,
        pm_image = replicate 64 (replicate 64 (255, 255, 255))\<rparr>
        ((new_ROI ''c0'' (I64 65529) (I64 20) (I64 (- 65465)) (I64 24))\<lparr>roi_name := ''circle_01''\<rparr>)
   \<and> \<not> within_image \<lparr>isNull = False, pm_width = 64, pm_height = 64,
        pm_image = replicate 64 (replicate 64 (255, 255, 255))\<rparr>
        ((new_ROI ''c0'' (U16 65529) (U16 20) (U16 24) (U16 24))\<lparr>roi_name := ''circle_01''\<rparr>)"
proof (intro conjI)
  show "detect_circles Legacy (\<lambda>img lo hi. Some [(5, 32, 10)]) (\<lambda>i. ''c0'')
       \<lparr>isNull = False, pm_width = 64, pm_height = 64,
        pm_image = replicate 64 (replicate 64 (255, 255, 255))\<rparr> 5 100
     = Inr [(new_ROI ''c0'' (I64 65529) (I64 20) (I64 (- 65465)) (I64 24))\<lparr>roi_name := ''circle_01''\<rparr>]"
    by (simp add: detect_circles_def qpixmap_to_cv2_def bytes_per_line_def circle_box_def
        low_edge_def extent_def arith_def weak_def in_i64_def py_max_def py_min_def
        fmt_02d_def dec.simps)
  show "detect_circles NEP50 (\<lambda>img lo hi. Some [(5, 32, 10)]) (\<lambda>i. ''c0'')
       \<lparr>isNull = False, pm_width = 64, pm_height = 64,
        pm_image = replicate 64 (replicate 64 (255, 255, 255))\<rparr> 5 100
     = Inr [(new_ROI ''c0'' (U16 65529) (U16 20) (U16 24) (U16 24))\<lparr>roi_name := ''circle_01''\<rparr>]"
    by (simp add: detect_circles_def qpixmap_to_cv2_def bytes_per_line_def circle_box_def
        low_edge_def extent_def arith_def weak_def in_u16_def py_max_def py_min_def
        fmt_02d_def dec.simps)
  show "val (I64 65529) = 65529" by simp
  show "val (I64 20) = 20" by simp
  show "val (I64 (- 65465)) = - 65465" by simp
  show "val (I64 24) = 24" by simp
  show "val (U16 65529) = 65529" by simp
  show "val (U16 20) = 20" by simp
  show "val (U16 24) = 24" by simp
  show "\<not> within_image \<lparr>isNull = False, pm_width = 64, pm_height = 64,
        pm_image = replicate 64 (replicate 64 (255, 255, 255))\<rparr>
        ((new_ROI ''c0'' (I64 65529) (I64 20) (I64 (- 65465)) (I64 24))\<lparr>roi_name := ''circle_01''\<rparr>)"
    by (simp add: within_image_def new_ROI_def)
  show "\<not> within_image \<lparr>isNull = False, pm_width = 64, pm_height = 64,
        pm_image = replicate 64 (replicate 64 (255, 255, 255))\<rparr>
        ((new_ROI ''c0'' (U16 65529) (U16 20) (U16 24) (U16 24))\<lparr>roi_name := ''circle_01''\<rparr>)"
    by (simp add: within_image_def new_ROI_def)
qed

section \<open>The superpixels of a run are a partition\<close>

lemma count_nonzero_mask_of: "count_nonzero (mask_of ls l) = count_list (concat ls) l"
proof -
  have "concat (mask_of ls l) = map (\<lambda>v. if v = l then 255 else 0) (concat ls)"
    by (simp add: mask_of_def map_concat)
  then have "count_nonzero (mask_of ls l) = length (filter (\<lambda>v. v = l) (concat ls))"
    by (simp add: count_nonzero_def filter_map comp_def)
  moreover have "(\<lambda>v. v = l) = ((=) l)" by auto
  ultimately show ?thesis by (simp add: count_list_eq_length_filter)
qed

lemma sum_counts_unique:
  "sum_list (map (count_list (concat ls)) (unique ls)) = length (concat ls)"
proof -
  have d: "distinct (unique ls)" and s: "set (unique ls) = set (concat ls)"
    by (simp_all add: unique_def)
  have "sum_list (map (count_list (concat ls)) (unique ls))
      = sum (count_list (concat ls)) (set (unique ls))"
    using d by (rule sum_list_distinct_conv_sum_set)
  also have "\<dots> = length (concat ls)"
    unfolding s by (rule sum_count_set) simp_all
  finally show ?thesis .
qed

lemma extract_loop_maps:
  assumes "\<forall>l \<in> set U. 0 \<le> l \<and> findContours (mask_of ls l) \<noteq> []"
  shows "map sp_label (extract_loop findContours contourArea ls U) = U
       \<and> map sp_mask (extract_loop findContours contourArea ls U) = map (mask_of ls) U"
  using assms
proof (induction U)
  case Nil
  show ?case by simp
next
  case (Cons l U)
  then obtain c cs where c: "findContours (mask_of ls l) = c # cs"
    by (cases "findContours (mask_of ls l)") auto
  have "0 \<le> l" using Cons.prems by simp
  then show ?case using Cons c by (simp add: Let_def)
qed

lemma length_concat_raster:
  assumes "label_raster w h ls"
  shows "int (length (concat ls)) = w * h"
proof -
  have r: "\<forall>row \<in> set ls. int (length row) = w" using assms by (simp add: label_raster_def)
  have "int (length (concat ls)) = w * int (length ls)"
    using r by (induction ls) (simp_all add: algebra_simps)
  then show ?thesis using assms by (simp add: label_raster_def)
qed

lemma sum_list_sorted_regions:
  "sum_list (map f (rev (sort_key k (rev xs)))) = sum_list (map f xs)" for f :: "'a \<Rightarrow> nat"
proof -
  have "mset (rev (sort_key k (rev xs))) = mset xs" by simp
  then have "mset (map f (rev (sort_key k (rev xs)))) = mset (map f xs)"
    by (metis mset_map)
  then show ?thesis by (metis sum_mset_sum_list)
qed

lemma in_nonzero_points:
  "(px, py) \<in> set (nonzero_points m) \<longleftrightarrow>
     (\<exists>y < length m. \<exists>x < length (m ! y). px = int x \<and> py = int y \<and> m ! y ! x \<noteq> 0)"
  by (auto simp: nonzero_points_def)

lemma mask_of_nth:
  "y < length ls \<Longrightarrow> x < length (ls ! y) \<Longrightarrow>
   mask_of ls l ! y ! x = (if ls ! y ! x = l then 255 else 0)"
  by (simp add: mask_of_def)

lemma length_mask_of: "length (mask_of ls l) = length ls"
  by (simp add: mask_of_def)

lemma length_mask_of_row: "y < length ls \<Longrightarrow> length (mask_of ls l ! y) = length (ls ! y)"
  by (simp add: mask_of_def)

lemma in_nonzero_mask_of:
  "(px, py) \<in> set (nonzero_points (mask_of ls l)) \<longleftrightarrow>
     (\<exists>y < length ls. \<exists>x < length (ls ! y). px = int x \<and> py = int y \<and> ls ! y ! x = l)"
  unfolding in_nonzero_points length_mask_of
  by (auto simp: length_mask_of_row mask_of_nth split: if_splits)

lemma masks_of_disjoint:
  assumes "l1 \<noteq> l2"
  shows "masks_disjoint (mask_of ls l1) (mask_of ls l2)"
proof -
  have "p \<notin> set (nonzero_points (mask_of ls l1)) \<inter> set (nonzero_points (mask_of ls l2))" for p
  proof (cases p)
    case (Pair px py)
    show ?thesis unfolding Pair using assms by (auto simp: in_nonzero_mask_of)
  qed
  then show ?thesis unfolding masks_disjoint_def by blast
qed

lemma nonzero_mask_of_nonempty:
  assumes "l \<in> set (unique ls)"
  shows "nonzero_points (mask_of ls l) \<noteq> []"
proof -
  from assms obtain row where row: "row \<in> set ls" "l \<in> set row"
    by (auto simp: unique_def)
  then obtain y where y: "y < length ls" "ls ! y = row" by (auto simp: in_set_conv_nth)
  from row(2) obtain x where x: "x < length row" "row ! x = l" by (auto simp: in_set_conv_nth)
  have "(int x, int y) \<in> set (nonzero_points (mask_of ls l))"
    unfolding in_nonzero_mask_of using x y by auto
  then show ?thesis by auto
qed

lemma contours_nonempty:
  assumes "external_contours findContours m" "nonzero_points m \<noteq> []"
  shows "findContours m \<noteq> []"
proof -
  from assms(2) obtain p where "p \<in> set (nonzero_points m)" by (cases "nonzero_points m") auto
  then obtain c where "c \<in> set (findContours m)"
    using assms(1) unfolding external_contours_def by blast
  then show ?thesis by auto
qed

lemma segment_regions:
  assumes "segment segment_skimage segment_opencv findContours contourArea seg pixmap = Inr (seg', regs)"
    and "\<not> isNull pixmap"
    and "seg_labels seg' = Some ls"
  shows "regs = extract_regions findContours contourArea ls"
  using assms
  by (auto simp: segment_def qpixmap_to_cv2_def Let_def split: sum.splits option.splits if_splits)

lemma extract_regions_sum:
  assumes "\<forall>l \<in> set (unique ls). 0 \<le> l \<and> findContours (mask_of ls l) \<noteq> []"
  shows "sum_list (map (\<lambda>r. count_nonzero (sp_mask r)) (extract_regions findContours contourArea ls))
     = length (concat ls)"
proof -
  let ?R = "extract_loop findContours contourArea ls (unique ls)"
  have m: "map sp_mask ?R = map (mask_of ls) (unique ls)"
    using extract_loop_maps [OF assms] by blast
  have "sum_list (map (\<lambda>r. count_nonzero (sp_mask r)) (extract_regions findContours contourArea ls))
      = sum_list (map (\<lambda>r. count_nonzero (sp_mask r)) ?R)"
    unfolding extract_regions_def by (rule sum_list_sorted_regions)
  also have "\<dots> = sum_list (map count_nonzero (map sp_mask ?R))"
    by (simp add: comp_def)
  also have "\<dots> = sum_list (map (count_list (concat ls)) (unique ls))"
    unfolding m by (simp add: comp_def count_nonzero_mask_of)
  also have "\<dots> = length (concat ls)" by (rule sum_counts_unique)
  finally show ?thesis .
qed

lemma extract_regions_disjoint:
  assumes "\<forall>l \<in> set (unique ls). 0 \<le> l \<and> findContours (mask_of ls l) \<noteq> []"
    and "i < length (extract_regions findContours contourArea ls)"
    and "j < length (extract_regions findContours contourArea ls)"
    and "i \<noteq> j"
  shows "masks_disjoint (sp_mask (extract_regions findContours contourArea ls ! i))
                        (sp_mask (extract_regions findContours contourArea ls ! j))"
proof -
  let ?R = "extract_loop findContours contourArea ls (unique ls)"
  let ?S = "extract_regions findContours contourArea ls"
  have l: "map sp_label ?R = unique ls" and m: "map sp_mask ?R = map (mask_of ls) (unique ls)"
    using extract_loop_maps [OF assms(1)] by blast+
  have rm: "\<forall>r \<in> set ?R. sp_mask r = mask_of ls (sp_label r)"
  proof
    fix r assume "r \<in> set ?R"
    then obtain n where n: "n < length ?R" "?R ! n = r" by (auto simp: in_set_conv_nth)
    have "sp_mask r = map sp_mask ?R ! n" using n by simp
    also have "\<dots> = mask_of ls (unique ls ! n)" unfolding m using n l
      by (metis length_map nth_map)
    also have "unique ls ! n = map sp_label ?R ! n" using l by simp
    also have "\<dots> = sp_label r" using n by simp
    finally show "sp_mask r = mask_of ls (sp_label r)" .
  qed
  have set_eq: "set ?S = set ?R" by (simp add: extract_regions_def)
  have "mset (map sp_label ?S) = mset (map sp_label ?R)"
    by (simp add: extract_regions_def)
  moreover have "distinct (map sp_label ?R)" unfolding l by (simp add: unique_def)
  ultimately have d: "distinct (map sp_label ?S)" by (metis distinct_count_atmost_1 set_mset_mset)
  have li: "i < length (map sp_label ?S)" and lj: "j < length (map sp_label ?S)"
    using assms(2,3) by simp_all
  have "map sp_label ?S ! i \<noteq> map sp_label ?S ! j"
    using nth_eq_iff_index_eq [OF d li lj] assms(4) by blast
  then have ne: "sp_label (?S ! i) \<noteq> sp_label (?S ! j)"
    using nth_map [OF assms(2), of sp_label] nth_map [OF assms(3), of sp_label] by simp
  have "?S ! i \<in> set ?R" "?S ! j \<in> set ?R" using assms(2,3) set_eq by (metis nth_mem)+
  then have "sp_mask (?S ! i) = mask_of ls (sp_label (?S ! i))"
      "sp_mask (?S ! j) = mask_of ls (sp_label (?S ! j))"
    using rm by blast+
  then show ?thesis using masks_of_disjoint [OF ne] by simp
qed

text \<open>
  Claim C2. Let \<open>segment\<close> return a list of regions for a pixmap that is not null, of
  width \<open>w\<close> and height \<open>h\<close> (it returns only when the width is a multiple of 4, and
  raises \<open>ValueError\<close> otherwise), from a label raster of \<open>h\<close> rows of \<open>w\<close> labels that
  count from 0, with OpenCV returning the external contours of each mask. Then the
  numbers of set pixels of the masks add up to \<open>w * h\<close>, and the masks of two
  different regions of the list have no set pixel in common.
\<close>

theorem C2_segment_partition:
  assumes run: "segment segment_skimage segment_opencv findContours contourArea seg pixmap
                  = Inr (seg', regs)"
    and nn: "\<not> isNull pixmap"
    and ls: "seg_labels seg' = Some ls"
    and raster: "label_raster (pm_width pixmap) (pm_height pixmap) ls"
    and cont: "\<forall>l \<in> set (unique ls). external_contours findContours (mask_of ls l)"
  shows "int (sum_list (map (\<lambda>r. count_nonzero (sp_mask r)) regs))
           = pm_width pixmap * pm_height pixmap
       \<and> (\<forall>i < length regs. \<forall>j < length regs. i \<noteq> j \<longrightarrow>
             masks_disjoint (sp_mask (regs ! i)) (sp_mask (regs ! j)))"
proof -
  have regs: "regs = extract_regions findContours contourArea ls"
    by (rule segment_regions [OF run nn ls])
  have good: "\<forall>l \<in> set (unique ls). 0 \<le> l \<and> findContours (mask_of ls l) \<noteq> []"
  proof
    fix l assume l: "l \<in> set (unique ls)"
    then have "l \<in> set (concat ls)" by (simp add: unique_def)
    then have "0 \<le> l" using raster by (auto simp: label_raster_def)
    moreover have "findContours (mask_of ls l) \<noteq> []"
      using cont l nonzero_mask_of_nonempty [OF l] by (intro contours_nonempty) auto
    ultimately show "0 \<le> l \<and> findContours (mask_of ls l) \<noteq> []" by simp
  qed
  have s: "int (sum_list (map (\<lambda>r. count_nonzero (sp_mask r)) regs))
           = pm_width pixmap * pm_height pixmap"
    unfolding regs extract_regions_sum [OF good] by (rule length_concat_raster [OF raster])
  have d: "\<forall>i < length regs. \<forall>j < length regs. i \<noteq> j \<longrightarrow>
             masks_disjoint (sp_mask (regs ! i)) (sp_mask (regs ! j))"
    unfolding regs using extract_regions_disjoint [OF good] by blast
  show ?thesis using s d by (rule conjI)
qed

theorem C2_segment_partition_witness:
  "segment (\<lambda>img n. Inl BackendError) (\<lambda>img n r. Inr (Some [[0, 1, 2, 3]]))
       ref_findContours ref_contourArea
       \<lparr>region_size = 30, ruler = 10, seg_labels = None, seg_regions = []\<rparr>
       \<lparr>isNull = False, pm_width = 4, pm_height = 1,
        pm_image = [[(0, 0, 0), (255, 255, 255), (255, 0, 0), (0, 0, 255)]]\<rparr>
     = Inr (\<lparr>region_size = 30, ruler = 10, seg_labels = Some [[0, 1, 2, 3]],
            seg_regions =
              [\<lparr>sp_label = 0, sp_mask = [[255, 0, 0, 0]], sp_contour = [(0, 0)],
                sp_bbox = (0, 0, 1, 1), sp_area = 0\<rparr>,
               \<lparr>sp_label = 1, sp_mask = [[0, 255, 0, 0]], sp_contour = [(1, 0)],
                sp_bbox = (1, 0, 1, 1), sp_area = 0\<rparr>,
               \<lparr>sp_label = 2, sp_mask = [[0, 0, 255, 0]], sp_contour = [(2, 0)],
                sp_bbox = (2, 0, 1, 1), sp_area = 0\<rparr>,
               \<lparr>sp_label = 3, sp_mask = [[0, 0, 0, 255]], sp_contour = [(3, 0)],
                sp_bbox = (3, 0, 1, 1), sp_area = 0\<rparr>]\<rparr>,
           [\<lparr>sp_label = 0, sp_mask = [[255, 0, 0, 0]], sp_contour = [(0, 0)],
             sp_bbox = (0, 0, 1, 1), sp_area = 0\<rparr>,
            \<lparr>sp_label = 1, sp_mask = [[0, 255, 0, 0]], sp_contour = [(1, 0)],
             sp_bbox = (1, 0, 1, 1), sp_area = 0\<rparr>,
            \<lparr>sp_label = 2, sp_mask = [[0, 0, 255, 0]], sp_contour = [(2, 0)],
             sp_bbox = (2, 0, 1, 1), sp_area = 0\<rparr>,
            \<lparr>sp_label = 3, sp_mask = [[0, 0, 0, 255]], sp_contour = [(3, 0)],
             sp_bbox = (3, 0, 1, 1), sp_area = 0\<rparr>])
   \<and> label_raster 4 1 [[0, 1, 2, 3]]
   \<and> count_nonzero [[255, 0, 0, 0]] + count_nonzero [[0, 255, 0, 0]]
       + count_nonzero [[0, 0, 255, 0]] + count_nonzero [[0, 0, 0, 255]] = 4
   \<and> masks_disjoint [[255, 0, 0, 0]] [[0, 0, 255, 0]]"
proof -
  let ?pm = "\<lparr>isNull = False, pm_width = 4, pm_height = 1,
        pm_image = [[(0, 0, 0), (255, 255, 255), (255, 0, 0), (0, 0, 255)]]\<rparr>"
  let ?seg = "\<lparr>region_size = 30, ruler = 10, seg_labels = None, seg_regions = []\<rparr>"
  let ?R0 = "\<lparr>sp_label = 0, sp_mask = [[255, 0, 0, 0]], sp_contour = [(0, 0)],
                sp_bbox = (0, 0, 1, 1), sp_area = 0\<rparr>"
  let ?R1 = "\<lparr>sp_label = 1, sp_mask = [[0, 255, 0, 0]], sp_contour = [(1, 0)],
                sp_bbox = (1, 0, 1, 1), sp_area = 0\<rparr>"
  let ?R2 = "\<lparr>sp_label = 2, sp_mask = [[0, 0, 255, 0]], sp_contour = [(2, 0)],
                sp_bbox = (2, 0, 1, 1), sp_area = 0\<rparr>"
  let ?R3 = "\<lparr>sp_label = 3, sp_mask = [[0, 0, 0, 255]], sp_contour = [(3, 0)],
                sp_bbox = (3, 0, 1, 1), sp_area = 0\<rparr>"
  let ?seg' = "\<lparr>region_size = 30, ruler = 10, seg_labels = Some [[0, 1, 2, 3]],
            seg_regions = [?R0, ?R1, ?R2, ?R3]\<rparr>"
  have ex: "extract_regions ref_findContours ref_contourArea [[0, 1, 2, 3]] = [?R0, ?R1, ?R2, ?R3]"
    by code_simp
  have run: "segment (\<lambda>img n. Inl BackendError) (\<lambda>img n r. Inr (Some [[0, 1, 2, 3]]))
       ref_findContours ref_contourArea ?seg ?pm = Inr (?seg', [?R0, ?R1, ?R2, ?R3])"
    by (simp add: segment_def qpixmap_to_cv2_def bytes_per_line_def ex Let_def)
  have nn: "\<not> isNull ?pm" by simp
  have ls: "seg_labels ?seg' = Some [[0, 1, 2, 3]]" by simp
  have raster: "label_raster 4 1 [[0, 1, 2, 3]]" by (simp add: label_raster_def)
  have raster': "label_raster (pm_width ?pm) (pm_height ?pm) [[0, 1, 2, 3]]"
    using raster by simp
  have cont: "\<forall>l \<in> set (unique [[0, 1, 2, 3]]).
       external_contours ref_findContours (mask_of [[0, 1, 2, 3]] l)"
    by code_simp
  note t = C2_segment_partition [OF run nn ls raster' cont]
  have s: "count_nonzero [[255, 0, 0, 0]] + count_nonzero [[0, 255, 0, 0]]
       + count_nonzero [[0, 0, 255, 0]] + count_nonzero [[0, 0, 0, 255]] = 4"
    using t [THEN conjunct1] by simp
  have "0 < length [?R0, ?R1, ?R2, ?R3] \<and> 2 < length [?R0, ?R1, ?R2, ?R3] \<and> (0::nat) \<noteq> 2"
    by simp
  then have "masks_disjoint (sp_mask ([?R0, ?R1, ?R2, ?R3] ! 0)) (sp_mask ([?R0, ?R1, ?R2, ?R3] ! 2))"
    using t [THEN conjunct2] by blast
  then have d: "masks_disjoint [[255, 0, 0, 0]] [[0, 0, 255, 0]]" by simp
  show ?thesis using run raster s d by (intro conjI)
qed

section \<open>The box of merged superpixels\<close>

lemma bitwise_or_points:
  assumes sh: "map length a = map length b"
  shows "\<exists>c. bitwise_or unequal a b = Inr c \<and> map length c = map length a
       \<and> set (nonzero_points c) = set (nonzero_points a) \<union> set (nonzero_points b)"
proof -
  define c where "c = map2 (map2 (\<lambda>u v. u OR v)) a b"
  have r: "bitwise_or unequal a b = Inr c" using sh by (simp add: bitwise_or_def c_def)
  have len: "length a = length b" using sh by (rule map_eq_imp_length_eq)
  have row: "length (a ! y) = length (b ! y)" if "y < length a" for y
    using that len nth_map [of y a length] nth_map [of y b length] sh by simp
  have lc: "length c = length a" using len by (simp add: c_def)
  have crow: "c ! y = map2 (\<lambda>u v. u OR v) (a ! y) (b ! y)" if "y < length a" for y
    using that len by (simp add: c_def)
  have lrow: "length (c ! y) = length (a ! y)" if "y < length a" for y
    using that row by (simp add: crow)
  have cell: "c ! y ! x = a ! y ! x OR b ! y ! x" if "y < length a" "x < length (a ! y)" for y x
    using that row by (simp add: crow)
  have m: "map length c = map length a"
    by (rule nth_equalityI) (simp_all add: lc lrow)
  have "p \<in> set (nonzero_points c) \<longleftrightarrow> p \<in> set (nonzero_points a) \<union> set (nonzero_points b)" for p
  proof (cases p)
    case (Pair px py)
    show ?thesis
      unfolding Pair Un_iff in_nonzero_points lc
      using len by (auto simp: lrow row cell or_eq_0_iff)
  qed
  then have "set (nonzero_points c) = set (nonzero_points a) \<union> set (nonzero_points b)"
    by blast
  then show ?thesis using r m by blast
qed

lemma or_masks_points:
  assumes "\<forall>r \<in> set rs. map length (sp_mask r) = map length acc"
  shows "\<exists>U. or_masks unequal acc rs = Inr U
       \<and> set (nonzero_points U)
           = set (nonzero_points acc) \<union> (\<Union>r \<in> set rs. set (nonzero_points (sp_mask r)))"
  using assms
proof (induction rs arbitrary: acc)
  case Nil
  then show ?case by simp
next
  case (Cons r rs)
  have "map length acc = map length (sp_mask r)" using Cons.prems by simp
  then obtain m where m: "bitwise_or unequal acc (sp_mask r) = Inr m"
      "map length m = map length acc"
      "set (nonzero_points m) = set (nonzero_points acc) \<union> set (nonzero_points (sp_mask r))"
    using bitwise_or_points [of acc "sp_mask r" unequal] by blast
  have "\<forall>r \<in> set rs. map length (sp_mask r) = map length m"
    using Cons.prems m(2) by simp
  then obtain U where U: "or_masks unequal m rs = Inr U"
      "set (nonzero_points U)
         = set (nonzero_points m) \<union> (\<Union>r \<in> set rs. set (nonzero_points (sp_mask r)))"
    using Cons.IH [of m] by blast
  have "or_masks unequal acc (r # rs) = Inr U" using m(1) U(1) by simp
  moreover have "set (nonzero_points U)
      = set (nonzero_points acc) \<union> (\<Union>r \<in> set (r # rs). set (nonzero_points (sp_mask r)))"
    unfolding U(2) m(3) by auto
  ultimately show ?case by blast
qed

lemma zeros_like_shape: "map length (zeros_like m) = map length m"
  by (simp add: zeros_like_def)

lemma zeros_like_points: "set (nonzero_points (zeros_like m)) = {}"
proof (rule equals0I)
  fix p assume p: "p \<in> set (nonzero_points (zeros_like m))"
  obtain px py where "p = (px, py)" by (cases p) auto
  then have "(px, py) \<in> set (nonzero_points (zeros_like m))" using p by simp
  then obtain y x where "y < length (zeros_like m)" "x < length (zeros_like m ! y)"
      "zeros_like m ! y ! x \<noteq> 0"
    unfolding in_nonzero_points by blast
  then show False by (simp add: zeros_like_def)
qed

lemma union_mask:
  assumes "same_shape regions"
  shows "\<exists>U. or_masks unequal (zeros_like (sp_mask (hd regions))) regions = Inr U
       \<and> set (nonzero_points U) = (\<Union>r \<in> set regions. set (nonzero_points (sp_mask r)))"
proof -
  have "\<forall>r \<in> set regions. map length (sp_mask r) = map length (zeros_like (sp_mask (hd regions)))"
    using assms by (simp add: same_shape_def zeros_like_shape)
  then show ?thesis
    using or_masks_points [of regions "zeros_like (sp_mask (hd regions))" unequal]
    by (simp add: zeros_like_points)
qed

lemma max_by_mem: "max_by key best cs \<in> set (best # cs)"
  by (induction cs arbitrary: best) auto

lemma max_by_ge: "c \<in> set (best # cs) \<Longrightarrow> key c \<le> key (max_by key best cs)"
proof (induction cs arbitrary: best c)
  case Nil
  then show ?case by simp
next
  case (Cons d ds)
  have step: "key b \<le> key (max_by key b ds)" for b
    using Cons.IH [of b b] by simp
  show ?case
  proof (cases "c \<in> set ds")
    case True
    then show ?thesis using Cons.IH [of c "if key d > key best then d else best"] by simp
  next
    case False
    then consider "c = best" | "c = d" using Cons.prems by auto
    then show ?thesis
    proof cases
      case 1
      show ?thesis
        using step [of "if key d > key best then d else best"] 1
        by (auto split: if_splits)
    next
      case 2
      show ?thesis
        using step [of "if key d > key best then d else best"] 2
        by (auto split: if_splits)
    qed
  qed
qed

lemma boundingRect_within:
  assumes "pts \<noteq> []" and "\<forall>p \<in> set pts. in_rect p (bx, by, bw, bh)"
    and "boundingRect pts = (x, y, w, h)"
  shows "bx \<le> x \<and> by \<le> y \<and> x + w \<le> bx + bw \<and> y + h \<le> by + bh"
proof -
  have ne: "set (map fst pts) \<noteq> {}" "set (map snd pts) \<noteq> {}" using assms(1) by simp_all
  have x: "x = Min (set (map fst pts))" and y: "y = Min (set (map snd pts))"
    and w: "w = Max (set (map fst pts)) - x + 1" and h: "h = Max (set (map snd pts)) - y + 1"
    using assms(1,3) by (simp_all add: boundingRect_def Let_def)
  have "bx \<le> x" unfolding x using ne assms(2) by (auto simp: in_rect_def)
  moreover have "by \<le> y" unfolding y using ne assms(2) by (auto simp: in_rect_def)
  moreover have "Max (set (map fst pts)) < bx + bw"
    using ne assms(2) by (auto simp: in_rect_def)
  moreover have "Max (set (map snd pts)) < by + bh"
    using ne assms(2) by (auto simp: in_rect_def)
  ultimately show ?thesis using w h by simp
qed

text \<open>When the union of the masks has a single external contour, its bounding
  rectangle holds the box of every member.\<close>

lemma single_contour_contains:
  assumes wf: "\<forall>r \<in> set regions. region_wf r"
    and pts: "set (nonzero_points U) = (\<Union>r \<in> set regions. set (nonzero_points (sp_mask r)))"
    and c: "findContours U = [c]"
    and ext: "external_contours findContours U"
    and br: "boundingRect c = (bx, by, bw, bh)"
    and roi: "roi_box roi = (bx, by, bw, bh)"
  shows "\<forall>r \<in> set regions. bbox_contains roi (sp_bbox r)"
proof
  fix r assume r: "r \<in> set regions"
  have cover: "\<forall>p \<in> set (nonzero_points U). in_rect p (bx, by, bw, bh)"
    using ext c br unfolding external_contours_def by auto
  obtain x y w h where b: "boundingRect (sp_contour r) = (x, y, w, h)"
    by (cases "boundingRect (sp_contour r)") auto
  have rw: "sp_contour r \<noteq> []" "set (sp_contour r) \<subseteq> set (nonzero_points (sp_mask r))"
      "sp_bbox r = boundingRect (sp_contour r)"
    using wf r by (auto simp: region_wf_def)
  have "set (nonzero_points (sp_mask r)) \<subseteq> set (nonzero_points U)"
    unfolding pts using r by blast
  then have "\<forall>p \<in> set (sp_contour r). in_rect p (bx, by, bw, bh)"
    using rw(2) cover by blast
  then have "bx \<le> x \<and> by \<le> y \<and> x + w \<le> bx + bw \<and> y + h \<le> by + bh"
    using rw(1) b by (intro boundingRect_within [of "sp_contour r"]) auto
  then show "bbox_contains roi (sp_bbox r)"
    unfolding rw(3) b using roi by (simp add: bbox_contains_def roi_box_def)
qed

text \<open>
  Claim C6, as the specification states it, fails. The raster \<open>[[0, 1, 2, 3]]\<close> has
  four superpixels of one pixel each. The union of the masks of the first and the third
  has two external contours of the same area, which OpenCV returns with the one at
  (2, 0) first; \<open>merge_regions\<close> takes the box from that one, \<open>(2, 0, 1, 1)\<close>, and it
  does not hold the box \<open>(0, 0, 1, 1)\<close> of the first region.
\<close>

theorem C6_merge_regions_counterexample:
  "extract_regions ref_findContours ref_contourArea [[0, 1, 2, 3]]
     = [\<lparr>sp_label = 0, sp_mask = [[255, 0, 0, 0]], sp_contour = [(0, 0)],
         sp_bbox = (0, 0, 1, 1), sp_area = 0\<rparr>,
        \<lparr>sp_label = 1, sp_mask = [[0, 255, 0, 0]], sp_contour = [(1, 0)],
         sp_bbox = (1, 0, 1, 1), sp_area = 0\<rparr>,
        \<lparr>sp_label = 2, sp_mask = [[0, 0, 255, 0]], sp_contour = [(2, 0)],
         sp_bbox = (2, 0, 1, 1), sp_area = 0\<rparr>,
        \<lparr>sp_label = 3, sp_mask = [[0, 0, 0, 255]], sp_contour = [(3, 0)],
         sp_bbox = (3, 0, 1, 1), sp_area = 0\<rparr>]
   \<and> ref_findContours [[255, 0, 255, 0]] = [[(2, 0)], [(0, 0)]]
   \<and> merge_regions (\<lambda>a b. Inl CvError) ref_findContours ref_contourArea ''m0''
        [\<lparr>sp_label = 0, sp_mask = [[255, 0, 0, 0]], sp_contour = [(0, 0)],
          sp_bbox = (0, 0, 1, 1), sp_area = 0\<rparr>,
         \<lparr>sp_label = 2, sp_mask = [[0, 0, 255, 0]], sp_contour = [(2, 0)],
          sp_bbox = (2, 0, 1, 1), sp_area = 0\<rparr>]
     = Inr (Some ((new_ROI ''m0'' 2 0 1 1)\<lparr>roi_name := ''superpixel_merge_2''\<rparr>))
   \<and> \<not> bbox_contains ((new_ROI ''m0'' 2 0 1 1)\<lparr>roi_name := ''superpixel_merge_2''\<rparr>) (0, 0, 1, 1)"
proof (intro conjI)
  show "extract_regions ref_findContours ref_contourArea [[0, 1, 2, 3]]
     = [\<lparr>sp_label = 0, sp_mask = [[255, 0, 0, 0]], sp_contour = [(0, 0)],
         sp_bbox = (0, 0, 1, 1), sp_area = 0\<rparr>,
        \<lparr>sp_label = 1, sp_mask = [[0, 255, 0, 0]], sp_contour = [(1, 0)],
         sp_bbox = (1, 0, 1, 1), sp_area = 0\<rparr>,
        \<lparr>sp_label = 2, sp_mask = [[0, 0, 255, 0]], sp_contour = [(2, 0)],
         sp_bbox = (2, 0, 1, 1), sp_area = 0\<rparr>,
        \<lparr>sp_label = 3, sp_mask = [[0, 0, 0, 255]], sp_contour = [(3, 0)],
         sp_bbox = (3, 0, 1, 1), sp_area = 0\<rparr>]"
    by code_simp
  show "ref_findContours [[255, 0, 255, 0]] = [[(2, 0)], [(0, 0)]]"
    by code_simp
  show "merge_regions (\<lambda>a b. Inl CvError) ref_findContours ref_contourArea ''m0''
        [\<lparr>sp_label = 0, sp_mask = [[255, 0, 0, 0]], sp_contour = [(0, 0)],
          sp_bbox = (0, 0, 1, 1), sp_area = 0\<rparr>,
         \<lparr>sp_label = 2, sp_mask = [[0, 0, 255, 0]], sp_contour = [(2, 0)],
          sp_bbox = (2, 0, 1, 1), sp_area = 0\<rparr>]
     = Inr (Some ((new_ROI ''m0'' 2 0 1 1)\<lparr>roi_name := ''superpixel_merge_2''\<rparr>))"
    by code_simp
  show "\<not> bbox_contains ((new_ROI ''m0'' 2 0 1 1)\<lparr>roi_name := ''superpixel_merge_2''\<rparr>) (0, 0, 1, 1)"
    by (simp add: bbox_contains_def new_ROI_def)
qed

text \<open>
  Claim C6, amended. Take a non-empty list of regions as \<open>_extract_regions\<close> builds
  them from one label raster. For a single region \<open>merge_regions\<close> returns a region
  with the box of that one. For two or more it joins the masks, and the union mask
  has exactly the set pixels of the members; it returns \<open>None\<close> when OpenCV finds no
  external contour of the union, and otherwise a region whose box is the bounding
  rectangle of a contour of greatest area among the external contours of the union
  (the one that \<open>max\<close> picks). That box holds the box of every member when that
  contour is the only one; it need not otherwise, as the example before shows. In no
  case does \<open>merge_regions\<close> raise.
\<close>

theorem C6_merge_regions_largest_contour:
  assumes wf: "\<forall>r \<in> set regions. region_wf r"
    and sh: "same_shape regions"
    and ne: "regions \<noteq> []"
  shows "(length regions = 1 \<longrightarrow>
            (\<exists>roi. merge_regions unequal findContours contourArea ident regions = Inr (Some roi)
                  \<and> roi_box roi = sp_bbox (hd regions)
                  \<and> (\<forall>r \<in> set regions. bbox_contains roi (sp_bbox r))))
       \<and> (2 \<le> length regions \<longrightarrow>
            (\<exists>U. or_masks unequal (zeros_like (sp_mask (hd regions))) regions = Inr U
                \<and> set (nonzero_points U) = (\<Union>r \<in> set regions. set (nonzero_points (sp_mask r)))
                \<and> (findContours U = [] \<longrightarrow>
                      merge_regions unequal findContours contourArea ident regions = Inr None)
                \<and> (findContours U \<noteq> [] \<longrightarrow>
                      (\<exists>roi best.
                          merge_regions unequal findContours contourArea ident regions
                            = Inr (Some roi)
                        \<and> best \<in> set (findContours U)
                        \<and> (\<forall>c \<in> set (findContours U). contourArea c \<le> contourArea best)
                        \<and> best = max_by contourArea (hd (findContours U)) (tl (findContours U))
                        \<and> roi_box roi = boundingRect best
                        \<and> (findContours U = [best] \<and> external_contours findContours U \<longrightarrow>
                              (\<forall>r \<in> set regions. bbox_contains roi (sp_bbox r)))))))"
proof (intro conjI impI)
  assume "length regions = 1"
  then obtain r0 where r0: "regions = [r0]" by (cases regions) auto
  obtain x y w h where b: "sp_bbox r0 = (x, y, w, h)" by (cases "sp_bbox r0") auto
  have m: "merge_regions unequal findContours contourArea ident regions
      = Inr (Some (new_ROI ident x y w h))"
    by (simp add: merge_regions_def r0 b)
  have rb: "roi_box (new_ROI ident x y w h) = sp_bbox (hd regions)"
    by (simp add: roi_box_def new_ROI_def r0 b)
  have "bbox_contains (new_ROI ident x y w h) (sp_bbox r0)"
    by (simp add: bbox_contains_def b new_ROI_def)
  then have "\<forall>r \<in> set regions. bbox_contains (new_ROI ident x y w h) (sp_bbox r)"
    by (simp add: r0)
  then show "\<exists>roi. merge_regions unequal findContours contourArea ident regions = Inr (Some roi)
                  \<and> roi_box roi = sp_bbox (hd regions)
                  \<and> (\<forall>r \<in> set regions. bbox_contains roi (sp_bbox r))"
    using m rb by blast
next
  assume "2 \<le> length regions"
  then obtain r0 r1 rest where two: "regions = r0 # r1 # rest"
    by (cases regions; cases "tl regions") auto
  obtain U where U: "or_masks unequal (zeros_like (sp_mask (hd regions))) regions = Inr U"
    and pts: "set (nonzero_points U) = (\<Union>r \<in> set regions. set (nonzero_points (sp_mask r)))"
    using union_mask [OF sh, of unequal] by blast
  have U0: "or_masks unequal (zeros_like (sp_mask r0)) (r0 # r1 # rest) = Inr U"
    using U by (simp add: two)
  have none: "findContours U = [] \<longrightarrow>
      merge_regions unequal findContours contourArea ident regions = Inr None"
    using U0 by (simp add: merge_regions_def two)
  have some: "findContours U \<noteq> [] \<longrightarrow>
     (\<exists>roi best.
         merge_regions unequal findContours contourArea ident regions = Inr (Some roi)
       \<and> best \<in> set (findContours U)
       \<and> (\<forall>c \<in> set (findContours U). contourArea c \<le> contourArea best)
       \<and> best = max_by contourArea (hd (findContours U)) (tl (findContours U))
       \<and> roi_box roi = boundingRect best
       \<and> (findContours U = [best] \<and> external_contours findContours U \<longrightarrow>
             (\<forall>r \<in> set regions. bbox_contains roi (sp_bbox r))))"
  proof
    assume "findContours U \<noteq> []"
    then obtain c cs where ccs: "findContours U = c # cs" by (cases "findContours U") auto
    define best where "best = max_by contourArea c cs"
    obtain bx "by" bw bh where br: "boundingRect best = (bx, by, bw, bh)"
      by (cases "boundingRect best") auto
    define roi where
      "roi = (new_ROI ident bx by bw bh)\<lparr>roi_name := ''superpixel_merge_'' @ dec (length regions)\<rparr>"
    have m: "merge_regions unequal findContours contourArea ident regions = Inr (Some roi)"
      using U0 ccs br [unfolded best_def] by (simp add: merge_regions_def two roi_def)
    have mem: "best \<in> set (findContours U)"
      unfolding ccs best_def by (rule max_by_mem)
    have ge: "\<forall>c' \<in> set (findContours U). contourArea c' \<le> contourArea best"
      unfolding ccs best_def using max_by_ge [of _ c cs contourArea] by blast
    have eq: "best = max_by contourArea (hd (findContours U)) (tl (findContours U))"
      by (simp add: ccs best_def)
    have rb: "roi_box roi = boundingRect best"
      by (simp add: roi_box_def roi_def new_ROI_def br)
    have single: "findContours U = [best] \<and> external_contours findContours U \<longrightarrow>
             (\<forall>r \<in> set regions. bbox_contains roi (sp_bbox r))"
    proof (intro impI, elim conjE)
      assume c1: "findContours U = [best]" and ext: "external_contours findContours U"
      show "\<forall>r \<in> set regions. bbox_contains roi (sp_bbox r)"
        using wf pts c1 ext br by (rule single_contour_contains) (simp add: rb br)
    qed
    show "\<exists>roi best.
         merge_regions unequal findContours contourArea ident regions = Inr (Some roi)
       \<and> best \<in> set (findContours U)
       \<and> (\<forall>c \<in> set (findContours U). contourArea c \<le> contourArea best)
       \<and> best = max_by contourArea (hd (findContours U)) (tl (findContours U))
       \<and> roi_box roi = boundingRect best
       \<and> (findContours U = [best] \<and> external_contours findContours U \<longrightarrow>
             (\<forall>r \<in> set regions. bbox_contains roi (sp_bbox r)))"
      using m mem ge eq rb single by blast
  qed
  show "\<exists>U. or_masks unequal (zeros_like (sp_mask (hd regions))) regions = Inr U
                \<and> set (nonzero_points U) = (\<Union>r \<in> set regions. set (nonzero_points (sp_mask r)))
                \<and> (findContours U = [] \<longrightarrow>
                      merge_regions unequal findContours contourArea ident regions = Inr None)
                \<and> (findContours U \<noteq> [] \<longrightarrow>
                      (\<exists>roi best.
                          merge_regions unequal findContours contourArea ident regions
                            = Inr (Some roi)
                        \<and> best \<in> set (findContours U)
                        \<and> (\<forall>c \<in> set (findContours U). contourArea c \<le> contourArea best)
                        \<and> best = max_by contourArea (hd (findContours U)) (tl (findContours U))
                        \<and> roi_box roi = boundingRect best
                        \<and> (findContours U = [best] \<and> external_contours findContours U \<longrightarrow>
                              (\<forall>r \<in> set regions. bbox_contains roi (sp_bbox r)))))"
    using U pts none some by blast
qed

theorem C6_merge_regions_largest_contour_witness:
  "region_wf \<lparr>sp_label = 0, sp_mask = [[255, 0, 0, 0]], sp_contour = [(0, 0)],
              sp_bbox = (0, 0, 1, 1), sp_area = 0\<rparr>
   \<and> region_wf \<lparr>sp_label = 1, sp_mask = [[0, 255, 0, 0]], sp_contour = [(1, 0)],
                sp_bbox = (1, 0, 1, 1), sp_area = 0\<rparr>
   \<and> same_shape
        [\<lparr>sp_label = 0, sp_mask = [[255, 0, 0, 0]], sp_contour = [(0, 0)],
          sp_bbox = (0, 0, 1, 1), sp_area = 0\<rparr>,
         \<lparr>sp_label = 1, sp_mask = [[0, 255, 0, 0]], sp_contour = [(1, 0)],
          sp_bbox = (1, 0, 1, 1), sp_area = 0\<rparr>]
   \<and> merge_regions (\<lambda>a b. Inl CvError) ref_findContours ref_contourArea ''m1''
        [\<lparr>sp_label = 0, sp_mask = [[255, 0, 0, 0]], sp_contour = [(0, 0)],
          sp_bbox = (0, 0, 1, 1), sp_area = 0\<rparr>,
         \<lparr>sp_label = 1, sp_mask = [[0, 255, 0, 0]], sp_contour = [(1, 0)],
          sp_bbox = (1, 0, 1, 1), sp_area = 0\<rparr>]
     = Inr (Some ((new_ROI ''m1'' 0 0 2 1)\<lparr>roi_name := ''superpixel_merge_2''\<rparr>))
   \<and> ref_findContours [[255, 255, 0, 0]] = [[(0, 0), (1, 0)]]
   \<and> bbox_contains ((new_ROI ''m1'' 0 0 2 1)\<lparr>roi_name := ''superpixel_merge_2''\<rparr>) (0, 0, 1, 1)
   \<and> bbox_contains ((new_ROI ''m1'' 0 0 2 1)\<lparr>roi_name := ''superpixel_merge_2''\<rparr>) (1, 0, 1, 1)"
proof -
  let ?R0 = "\<lparr>sp_label = 0, sp_mask = [[255, 0, 0, 0]], sp_contour = [(0, 0)],
          sp_bbox = (0, 0, 1, 1), sp_area = 0\<rparr>"
  let ?R1 = "\<lparr>sp_label = 1, sp_mask = [[0, 255, 0, 0]], sp_contour = [(1, 0)],
          sp_bbox = (1, 0, 1, 1), sp_area = 0\<rparr>"
  let ?roi = "(new_ROI ''m1'' 0 0 2 1)\<lparr>roi_name := ''superpixel_merge_2''\<rparr>"
  let ?U = "[[255, 255, 0, 0]] :: mask"
  let ?u = "\<lambda>(a :: mask) (b :: mask). (Inl CvError :: py_error + mask)"
  have w0: "region_wf ?R0" by code_simp
  have w1: "region_wf ?R1" by code_simp
  have wf: "\<forall>r \<in> set [?R0, ?R1]. region_wf r" using w0 w1 by simp
  have sh: "same_shape [?R0, ?R1]" by (simp add: same_shape_def)
  have ne: "[?R0, ?R1] \<noteq> []" by simp
  have len: "2 \<le> length [?R0, ?R1]" by simp
  have res: "merge_regions ?u ref_findContours ref_contourArea ''m1'' [?R0, ?R1] = Inr (Some ?roi)"
    by code_simp
  have u: "or_masks ?u (zeros_like (sp_mask (hd [?R0, ?R1]))) [?R0, ?R1] = Inr ?U"
    by code_simp
  have c: "ref_findContours ?U = [[(0, 0), (1, 0)]]"
    by code_simp
  have e: "external_contours ref_findContours ?U"
    by code_simp
  obtain U where U: "or_masks ?u (zeros_like (sp_mask (hd [?R0, ?R1]))) [?R0, ?R1] = Inr U"
    and some: "ref_findContours U \<noteq> [] \<longrightarrow>
       (\<exists>roi best.
           merge_regions ?u ref_findContours ref_contourArea ''m1'' [?R0, ?R1] = Inr (Some roi)
         \<and> best \<in> set (ref_findContours U)
         \<and> (\<forall>c \<in> set (ref_findContours U). ref_contourArea c \<le> ref_contourArea best)
         \<and> best = max_by ref_contourArea (hd (ref_findContours U)) (tl (ref_findContours U))
         \<and> roi_box roi = boundingRect best
         \<and> (ref_findContours U = [best] \<and> external_contours ref_findContours U \<longrightarrow>
               (\<forall>r \<in> set [?R0, ?R1]. bbox_contains roi (sp_bbox r))))"
    using C6_merge_regions_largest_contour [OF wf sh ne, of ?u ref_findContours ref_contourArea
        "''m1''", THEN conjunct2, THEN mp, OF len]
    by blast
  have UU: "U = ?U" using U unfolding u by simp
  have cne: "ref_findContours U \<noteq> []" unfolding UU c by simp
  obtain roi best where
    m: "merge_regions ?u ref_findContours ref_contourArea ''m1'' [?R0, ?R1] = Inr (Some roi)"
    and b: "best = max_by ref_contourArea (hd (ref_findContours U)) (tl (ref_findContours U))"
    and s: "ref_findContours U = [best] \<and> external_contours ref_findContours U \<longrightarrow>
               (\<forall>r \<in> set [?R0, ?R1]. bbox_contains roi (sp_bbox r))"
    using some [THEN mp, OF cne] by blast
  have roi: "roi = ?roi" using m unfolding res by simp
  have best: "best = [(0, 0), (1, 0)]" unfolding b UU c by simp
  have "ref_findContours U = [best] \<and> external_contours ref_findContours U"
    unfolding best unfolding UU using c e by simp
  then have all: "\<forall>r \<in> set [?R0, ?R1]. bbox_contains ?roi (sp_bbox r)"
    using s roi by simp
  have b0: "bbox_contains ?roi (0, 0, 1, 1)" using all by simp
  have b1: "bbox_contains ?roi (1, 0, 1, 1)" using all by simp
  show ?thesis using w0 w1 sh res c b0 b1 by (intro conjI)
qed

end
